theory Spec2Isabelle
  imports Main "HOL-Library.Multiset"
begin

section \<open>JavaScript strings and values\<close>

text \<open>
  A JavaScript string is a sequence of code units; it is modelled as a HOL \<open>string\<close>.
  A \<open>char\<close> whose code is above \<open>0x7F\<close> stands for a code unit outside ASCII, which
  is all that \<open>server.js\<close> ever asks of such a unit.
\<close>

datatype jsval = JsString string | JsUndefined | JsNull | JsNumber int | JsBoolean bool

definition startsWith :: "string \<Rightarrow> string \<Rightarrow> bool" where
  "startsWith s p = (take (length p) s = p)"

definition slice0 :: "nat \<Rightarrow> string \<Rightarrow> string" where
  \<comment> \<open>\<open>s.slice(0, n)\<close>\<close>
  "slice0 n s = take n s"

definition padStart :: "nat \<Rightarrow> char \<Rightarrow> string \<Rightarrow> string" where
  \<comment> \<open>\<open>s.padStart(n, c)\<close> with a one-character filler\<close>
  "padStart n c s = replicate (n - length s) c @ s"

definition digit_char :: "nat \<Rightarrow> char" where
  "digit_char d = ''0123456789'' ! d"

fun String_nat :: "nat \<Rightarrow> string" where
  \<comment> \<open>\<open>String(n)\<close> for a non-negative integer \<open>n\<close>: its decimal digits\<close>
  "String_nat n =
     (if n < 10 then [digit_char n] else String_nat (n div 10) @ [digit_char (n mod 10)])"

declare String_nat.simps [simp del]

subsection \<open>The regular expressions of \<open>sanitizeArchiveName\<close>\<close>

definition is_ascii :: "char \<Rightarrow> bool" where
  \<comment> \<open>the class \<open>[\x00-\x7F]\<close>\<close>
  "is_ascii c = ((of_char c :: nat) \<le> 127)"

definition is_safe_char :: "char \<Rightarrow> bool" where
  \<comment> \<open>the class \<open>[a-zA-Z0-9._-]\<close>\<close>
  "is_safe_char c =
     (let n = (of_char c :: nat) in
        (97 \<le> n \<and> n \<le> 122) \<or> (65 \<le> n \<and> n \<le> 90) \<or> (48 \<le> n \<and> n \<le> 57)
        \<or> c = CHR ''.'' \<or> c = CHR ''_'' \<or> c = CHR ''-'')"

function replace_runs :: "(char \<Rightarrow> bool) \<Rightarrow> string \<Rightarrow> string" where
  \<comment> \<open>\<open>s.replace(/C+/g, "-")\<close>: every maximal run of characters of the class \<open>C\<close>
      becomes one dash\<close>
  "replace_runs C [] = []"
| "replace_runs C (c # cs) =
     (if C c then CHR ''-'' # replace_runs C (dropWhile C cs) else c # replace_runs C cs)"
  by pat_completeness auto
termination
  by (relation "measure (\<lambda>(C, s). length s)")
     (auto simp: length_dropWhile_le less_Suc_eq_le)

definition trim_dash :: "string \<Rightarrow> string" where
  \<comment> \<open>\<open>s.replace(/^-|-$/g, "")\<close>: one dash at the start and one dash at the end go\<close>
  "trim_dash s =
     (let t = (case s of [] \<Rightarrow> [] | c # cs \<Rightarrow> if c = CHR ''-'' then cs else s)
      in if t \<noteq> [] \<and> last t = CHR ''-'' then butlast t else t)"

definition sanitize_string :: "(string \<Rightarrow> string) \<Rightarrow> string \<Rightarrow> string" where
  \<comment> \<open>the chain of \<open>sanitizeArchiveName\<close> on a string; \<open>nfkd\<close> is
      \<open>String.prototype.normalize("NFKD")\<close>, a table of the Unicode standard\<close>
  "sanitize_string nfkd v =
     slice0 80
       (trim_dash
         (replace_runs (\<lambda>c. c = CHR ''-'')
           (replace_runs (\<lambda>c. \<not> is_safe_char c)
             (filter is_ascii (nfkd v)))))"

definition sanitizeArchiveName :: "(string \<Rightarrow> string) \<Rightarrow> jsval \<Rightarrow> string" where
  "sanitizeArchiveName nfkd value =
     (case value of
        JsString v \<Rightarrow> (let safe = sanitize_string nfkd v in if safe = [] then ''arsiv'' else safe)
      | _ \<Rightarrow> ''arsiv'')"

subsection \<open>\<open>node:path\<close> (POSIX)\<close>

definition last_component :: "string \<Rightarrow> string" where
  \<comment> \<open>the path without its trailing slashes, from after its last slash on\<close>
  "last_component p =
     rev (takeWhile (\<lambda>c. c \<noteq> CHR ''/'') (dropWhile (\<lambda>c. c = CHR ''/'') (rev p)))"

definition basename :: "string \<Rightarrow> string" where
  "basename p = last_component p"

definition extname :: "string \<Rightarrow> string" where
  \<comment> \<open>from the last dot of the last component on; empty when there is no dot, when the
      dot opens the component, and for the component \<open>..\<close>\<close>
  "extname p =
     (let c = last_component p;
          e = rev (takeWhile (\<lambda>x. x \<noteq> CHR ''.'') (rev c))
      in if CHR ''.'' \<notin> set c then []
         else if length c = Suc (length e) \<or> c = ''..'' then []
         else CHR ''.'' # e)"

fun split_slash :: "string \<Rightarrow> string list" where
  \<comment> \<open>\<open>p.split("/")\<close>\<close>
  "split_slash [] = [[]]"
| "split_slash (c # cs) =
     (if c = CHR ''/'' then [] # split_slash cs
      else (case split_slash cs of [] \<Rightarrow> [[c]] | s # ss \<Rightarrow> (c # s) # ss))"

fun join_slash :: "string list \<Rightarrow> string" where
  \<comment> \<open>\<open>segments.join("/")\<close>\<close>
  "join_slash [] = []"
| "join_slash [s] = s"
| "join_slash (s # t # ss) = s @ CHR ''/'' # join_slash (t # ss)"

definition normalize_step :: "bool \<Rightarrow> string list \<Rightarrow> string \<Rightarrow> string list" where
  "normalize_step allowAboveRoot res seg =
     (if seg = [] \<or> seg = ''.'' then res
      else if seg = ''..'' then
        (if res \<noteq> [] \<and> last res \<noteq> ''..'' then butlast res
         else if allowAboveRoot then res @ [''..''] else res)
      else res @ [seg])"

definition normalize_segments :: "bool \<Rightarrow> string \<Rightarrow> string list" where
  \<comment> \<open>the segments that \<open>normalizeString\<close> keeps, in order\<close>
  "normalize_segments allowAboveRoot p = foldl (normalize_step allowAboveRoot) [] (split_slash p)"

definition normalize :: "string \<Rightarrow> string" where
  "normalize p =
     (if p = [] then ''.''
      else
        let isAbsolute = (hd p = CHR ''/'');
            trailingSeparator = (last p = CHR ''/'');
            body = join_slash (normalize_segments (\<not> isAbsolute) p)
        in if body = [] then (if isAbsolute then ''/'' else if trailingSeparator then ''./'' else ''.'')
           else (if isAbsolute then ''/'' else []) @ body @ (if trailingSeparator then ''/'' else []))"

definition path_join :: "string list \<Rightarrow> string" where
  \<comment> \<open>\<open>path.join(...parts)\<close>\<close>
  "path_join parts =
     (let joined = join_slash (filter (\<lambda>s. s \<noteq> []) parts)
      in if joined = [] then ''.'' else normalize joined)"

section \<open>Upload records and archive entry names\<close>

text \<open>
  An upload record as \<open>listUploadsForEvent\<close> returns it and as the upload handler builds
  it. The fields \<open>id\<close> and \<open>size\<close> are \<open>upload_id\<close> and \<open>file_size\<close> here.
\<close>

record upload =
  upload_id :: string
  eventId :: string
  guestName :: string
  originalName :: string
  storagePath :: string
  mimeType :: string
  file_size :: nat
  uploadedAt :: string

definition or_string :: "string \<Rightarrow> string \<Rightarrow> string" where
  \<comment> \<open>\<open>a || b\<close> on strings: the empty string is falsy\<close>
  "or_string a b = (if a \<noteq> [] then a else b)"

definition extensions :: "(string \<times> string) list" where
  "extensions =
     [(''image/jpeg'', ''.jpg''),
      (''image/png'', ''.png''),
      (''image/webp'', ''.webp''),
      (''image/heic'', ''.heic''),
      (''image/heif'', ''.heif''),
      (''image/gif'', ''.gif''),
      (''video/mp4'', ''.mp4''),
      (''video/quicktime'', ''.mov''),
      (''video/webm'', ''.webm'')]"

text \<open>
  \<open>extensions\<close> is an object literal, so \<open>extensions[mimeType]\<close> also finds the
  properties that every object inherits from \<open>Object.prototype\<close>. Their values are
  functions (and, for \<open>__proto__\<close>, an object): they are truthy, and the template literal
  of \<open>buildArchiveEntryName\<close> splices their text into the entry name. \<open>inherited\<close> lists
  each of these property names with that text.
\<close>

definition inherited :: "(string \<times> string) list" where
  "inherited =
     [(''constructor'', ''function Object() { [native code] }''),
      (''toString'', ''function toString() { [native code] }''),
      (''toLocaleString'', ''function toLocaleString() { [native code] }''),
      (''valueOf'', ''function valueOf() { [native code] }''),
      (''hasOwnProperty'', ''function hasOwnProperty() { [native code] }''),
      (''isPrototypeOf'', ''function isPrototypeOf() { [native code] }''),
      (''propertyIsEnumerable'', ''function propertyIsEnumerable() { [native code] }''),
      (''__defineGetter__'', ''function __defineGetter__() { [native code] }''),
      (''__defineSetter__'', ''function __defineSetter__() { [native code] }''),
      (''__lookupGetter__'', ''function __lookupGetter__() { [native code] }''),
      (''__lookupSetter__'', ''function __lookupSetter__() { [native code] }''),
      (''__proto__'', ''[object Object]'')]"

definition getExtensionFromMime :: "string \<Rightarrow> string" where
  \<comment> \<open>\<open>extensions[mimeType] || ""\<close>, as the text that the caller's template makes of it\<close>
  "getExtensionFromMime mime =
     (case map_of extensions mime of
        Some e \<Rightarrow> e
      | None \<Rightarrow> (case map_of inherited mime of Some text \<Rightarrow> text | None \<Rightarrow> []))"

definition buildArchiveEntryName :: "(string \<Rightarrow> string) \<Rightarrow> upload \<Rightarrow> nat \<Rightarrow> string" where
  "buildArchiveEntryName nfkd u index =
     (let prefix = padStart 3 (CHR ''0'') (String_nat (index + 1));
          original = or_string (originalName u) (basename (or_string (storagePath u) []));
          safeName = sanitizeArchiveName nfkd (JsString original)
      in if extname safeName \<noteq> [] then prefix @ ''-'' @ safeName
         else
           let fallbackExt =
                 or_string (extname (or_string (storagePath u) [])) (getExtensionFromMime (mimeType u))
           in prefix @ ''-'' @ safeName @ fallbackExt)"

section \<open>Storage keys\<close>

definition hex_digit :: "nat \<Rightarrow> char" where
  "hex_digit n = ''0123456789abcdef'' ! (n mod 16)"

definition hex_byte :: "nat \<Rightarrow> string" where
  "hex_byte b = [hex_digit (b div 16), hex_digit b]"

definition randomUUID :: "(nat \<Rightarrow> nat) \<Rightarrow> string" where
  \<comment> \<open>\<open>crypto.randomUUID()\<close> on the sixteen random bytes \<open>rnd 0 .. rnd 15\<close>: a version 4
      UUID in its 8-4-4-4-12 text form\<close>
  "randomUUID rnd =
     (let b = (\<lambda>i. if i = 6 then 64 + rnd i mod 16
                    else if i = 8 then 128 + rnd i mod 64 else rnd i mod 256);
          hex = (\<lambda>is. concat (map (\<lambda>i. hex_byte (b i)) is))
      in hex [0..<4] @ ''-'' @ hex [4..<6] @ ''-'' @ hex [6..<8] @ ''-'' @ hex [8..<10]
         @ ''-'' @ hex [10..<16])"

definition storage_filename :: "nat \<Rightarrow> (nat \<Rightarrow> nat) \<Rightarrow> string \<Rightarrow> string" where
  \<comment> \<open>\<open>uploadDiskStorage.filename\<close>: \<open>now\<close> is \<open>Date.now()\<close>\<close>
  "storage_filename now rnd originalname =
     (let ext = extname (or_string originalname [])
      in String_nat now @ ''-'' @ randomUUID rnd @ ext)"

definition supabase_storagePath :: "string \<Rightarrow> nat \<Rightarrow> (nat \<Rightarrow> nat) \<Rightarrow> string \<Rightarrow> string" where
  \<comment> \<open>the \<open>storagePath\<close> of the remote branch of the upload handler\<close>
  "supabase_storagePath event_id now rnd originalname =
     (let ext = extname (or_string originalname [])
      in event_id @ ''/'' @ String_nat now @ ''-'' @ randomUUID rnd @ ext)"

section \<open>Metadata: the local database file and the remote tables\<close>

text \<open>
  A value that a \<open>catch\<close> receives: an instance of \<open>Error\<close> with its message, or
  anything else.
\<close>

datatype thrown = JsError string | NonError

record config =
  USING_SUPABASE :: bool
  UPLOADS_DIR :: string
  MAX_FILE_SIZE_MB :: nat
  MAX_FILES_PER_REQUEST :: nat

text \<open>The field \<open>id\<close> of an event is \<open>ev_id\<close>.\<close>

record event =
  ev_id :: string
  eventName :: string
  eventDate :: string
  ownerName :: string
  adminToken :: string
  createdAt :: string

text \<open>
  An element of \<open>db.uploads\<close> in \<open>db.json\<close>. Records of an older version carry
  \<open>storedName\<close> and no \<open>storagePath\<close>; \<open>None\<close> is a field that is not there.
\<close>

record db_item =
  item_id :: string
  item_eventId :: string
  item_guestName :: string
  item_originalName :: string
  item_storagePath :: "string option"
  item_storedName :: "string option"
  item_mimeType :: string
  item_size :: nat
  item_uploadedAt :: string

record local_db =
  events :: "event list"
  uploads :: "db_item list"

text \<open>
  The file \<open>DB_FILE\<close>: missing, not JSON, or a JSON document. Of a document only what
  \<open>readLocalDb\<close> looks at is kept: whether it is \<open>null\<close>, whether it is an object,
  and whether its \<open>events\<close> and \<open>uploads\<close> are arrays.
\<close>

datatype 'a json_field = Absent | NotArray | Array "'a list"

datatype db_json = JsonNull | JsonOther | JsonObject "event json_field" "db_item json_field"

datatype db_file = NoFile | Unparsable | Json db_json

text \<open>The rows of the tables \<open>events\<close> and \<open>uploads\<close> of the remote database.\<close>

record event_row =
  row_id :: string
  event_name :: string
  event_date :: "string option"
  owner_name :: "string option"
  admin_token :: string
  created_at :: string

record upload_row =
  urow_id :: string
  event_id :: string
  guest_name :: "string option"
  original_name :: string
  storage_path :: string
  mime_type :: string
  size_bytes :: nat
  uploaded_at :: string

text \<open>
  \<open>disk\<close> lists the paths of the files under \<open>UPLOADS_DIR\<close> and \<open>dirs\<close> those of the
  directories. Every call to a storage backend is recorded in \<open>calls\<close>, in order.
\<close>

datatype call = DiskWrite string | DiskRemove string | BucketUpload string | BucketRemove string

record world =
  db_file :: db_file
  disk :: "string list"
  dirs :: "string list"
  events_table :: "event_row list"
  uploads_table :: "upload_row list"
  bucket :: "string list"
  calls :: "call list"

text \<open>
  What the outside answers: the failures of the file system and of the remote services
  (\<open>partial_file_left\<close> says whether a failed write leaves a file behind), the signed
  URLs and the responses to \<open>fetch\<close>, and the two orders on timestamps.
\<close>

record env =
  db_write_error :: "thrown option"
  disk_write_error :: "string \<Rightarrow> thrown option"
  partial_file_left :: "string \<Rightarrow> bool"
  disk_remove_error :: "string \<Rightarrow> thrown option"
  select_error :: "thrown option"
  insert_error :: "thrown option"
  upload_error :: "string \<Rightarrow> thrown option"
  remove_error :: "string \<Rightarrow> thrown option"
  createSignedUrl :: "string \<Rightarrow> thrown option \<times> string option"
  fetch :: "string \<Rightarrow> thrown + (bool \<times> bool)"
  localeCompare :: "string \<Rightarrow> string \<Rightarrow> int"
  timestamp_compare :: "string \<Rightarrow> string \<Rightarrow> int"

definition writeLocalDb :: "env \<Rightarrow> local_db \<Rightarrow> world \<Rightarrow> thrown option \<times> world" where
  "writeLocalDb env db w =
     (case db_write_error env of
        Some e \<Rightarrow> (Some e, w)
      | None \<Rightarrow> (None, w\<lparr>db_file := Json (JsonObject (Array (events db)) (Array (uploads db)))\<rparr>))"

definition parseLocalDb :: "db_file \<Rightarrow> thrown + local_db" where
  \<comment> \<open>the \<open>try\<close> block of \<open>readLocalDb\<close>\<close>
  "parseLocalDb f =
     (case f of
        NoFile \<Rightarrow> Inl (JsError ''ENOENT'')
      | Unparsable \<Rightarrow> Inl (JsError ''SyntaxError'')
      | Json JsonNull \<Rightarrow> Inl (JsError ''TypeError'')
      | Json JsonOther \<Rightarrow> Inl (JsError ''Bozuk db'')
      | Json (JsonObject (Array es) (Array us)) \<Rightarrow> Inr \<lparr>events = es, uploads = us\<rparr>
      | Json (JsonObject _ _) \<Rightarrow> Inl (JsError ''Bozuk db''))"

definition readLocalDb :: "env \<Rightarrow> world \<Rightarrow> (thrown + local_db) \<times> world" where
  "readLocalDb env w =
     (case parseLocalDb (db_file w) of
        Inr parsed \<Rightarrow> (Inr parsed, w)
      | Inl _ \<Rightarrow>
          (let fallback = \<lparr>events = [], uploads = []\<rparr>
           in case writeLocalDb env fallback w of
                (Some e, w') \<Rightarrow> (Inl e, w')
              | (None, w') \<Rightarrow> (Inr fallback, w')))"

definition or_null :: "string option \<Rightarrow> string" where
  \<comment> \<open>\<open>v || ""\<close> on a column that may be \<open>null\<close>\<close>
  "or_null v = (case v of Some s \<Rightarrow> s | None \<Rightarrow> [])"

definition findEventById :: "config \<Rightarrow> env \<Rightarrow> string \<Rightarrow> world \<Rightarrow> (thrown + event option) \<times> world" where
  "findEventById cfg env eid w =
     (if USING_SUPABASE cfg then
        (case select_error env of
           Some error \<Rightarrow> (Inl error, w)
         | None \<Rightarrow>
             (case find (\<lambda>r. row_id r = eid) (events_table w) of
                None \<Rightarrow> (Inr None, w)
              | Some data \<Rightarrow>
                  (Inr (Some \<lparr>ev_id = row_id data, eventName = event_name data,
                              eventDate = or_null (event_date data),
                              ownerName = or_null (owner_name data),
                              adminToken = admin_token data, createdAt = created_at data\<rparr>), w)))
      else
        (case readLocalDb env w of
           (Inl e, w') \<Rightarrow> (Inl e, w')
         | (Inr db, w') \<Rightarrow> (Inr (find (\<lambda>event. ev_id event = eid) (events db)), w')))"

definition to_row :: "upload \<Rightarrow> upload_row" where
  \<comment> \<open>an element of \<open>payload\<close> in \<open>insertUploadRecords\<close>\<close>
  "to_row item =
     \<lparr>urow_id = upload_id item, event_id = eventId item,
      guest_name = (if guestName item \<noteq> [] then Some (guestName item) else None),
      original_name = originalName item, storage_path = storagePath item,
      mime_type = mimeType item, size_bytes = file_size item, uploaded_at = uploadedAt item\<rparr>"

definition to_item :: "upload \<Rightarrow> db_item" where
  \<comment> \<open>a record as \<open>db.uploads.push(...records)\<close> stores it\<close>
  "to_item r =
     \<lparr>item_id = upload_id r, item_eventId = eventId r, item_guestName = guestName r,
      item_originalName = originalName r, item_storagePath = Some (storagePath r),
      item_storedName = None, item_mimeType = mimeType r, item_size = file_size r,
      item_uploadedAt = uploadedAt r\<rparr>"

definition insertUploadRecords :: "config \<Rightarrow> env \<Rightarrow> upload list \<Rightarrow> world \<Rightarrow> thrown option \<times> world" where
  "insertUploadRecords cfg env records w =
     (if records = [] then (None, w)
      else if USING_SUPABASE cfg then
        (let payload = map to_row records
         in case insert_error env of
              Some error \<Rightarrow> (Some error, w)
            | None \<Rightarrow> (None, w\<lparr>uploads_table := uploads_table w @ payload\<rparr>))
      else
        (case readLocalDb env w of
           (Inl e, w') \<Rightarrow> (Some e, w')
         | (Inr db, w') \<Rightarrow> writeLocalDb env (db\<lparr>uploads := uploads db @ map to_item records\<rparr>) w'))"

fun insert_by :: "('a \<Rightarrow> 'a \<Rightarrow> int) \<Rightarrow> 'a \<Rightarrow> 'a list \<Rightarrow> 'a list" where
  "insert_by cmp x [] = [x]"
| "insert_by cmp x (y # ys) = (if cmp x y \<le> 0 then x # y # ys else y # insert_by cmp x ys)"

definition js_sort :: "('a \<Rightarrow> 'a \<Rightarrow> int) \<Rightarrow> 'a list \<Rightarrow> 'a list" where
  \<comment> \<open>\<open>xs.sort(cmp)\<close>: a stable sort\<close>
  "js_sort cmp xs = foldr (insert_by cmp) xs []"

definition or_field :: "string option \<Rightarrow> string \<Rightarrow> string" where
  \<comment> \<open>\<open>a || b\<close> where \<open>a\<close> is a field that may be missing\<close>
  "or_field a b = (case a of Some s \<Rightarrow> if s \<noteq> [] then s else b | None \<Rightarrow> b)"

definition of_item :: "db_item \<Rightarrow> upload" where
  \<comment> \<open>\<open>{...item, storagePath: item.storagePath || item.storedName || ""}\<close>\<close>
  "of_item item =
     \<lparr>upload_id = item_id item, eventId = item_eventId item, guestName = item_guestName item,
      originalName = item_originalName item,
      storagePath = or_field (item_storagePath item) (or_field (item_storedName item) []),
      mimeType = item_mimeType item, file_size = item_size item,
      uploadedAt = item_uploadedAt item\<rparr>"

definition of_row :: "upload_row \<Rightarrow> upload" where
  "of_row item =
     \<lparr>upload_id = urow_id item, eventId = event_id item, guestName = or_null (guest_name item),
      originalName = original_name item, storagePath = storage_path item,
      mimeType = mime_type item, file_size = size_bytes item, uploadedAt = uploaded_at item\<rparr>"

definition listUploadsForEvent :: "config \<Rightarrow> env \<Rightarrow> string \<Rightarrow> world \<Rightarrow> (thrown + upload list) \<times> world" where
  "listUploadsForEvent cfg env eid w =
     (if USING_SUPABASE cfg then
        (case select_error env of
           Some error \<Rightarrow> (Inl error, w)
         | None \<Rightarrow>
             (let data = js_sort (\<lambda>a b. timestamp_compare env (uploaded_at b) (uploaded_at a))
                           (filter (\<lambda>r. event_id r = eid) (uploads_table w))
              in (Inr (map of_row data), w)))
      else
        (case readLocalDb env w of
           (Inl e, w') \<Rightarrow> (Inl e, w')
         | (Inr db, w') \<Rightarrow>
             (Inr (js_sort (\<lambda>a b. localeCompare env (uploadedAt b) (uploadedAt a))
                     (map of_item (filter (\<lambda>item. item_eventId item = eid) (uploads db)))), w')))"

section \<open>The upload route\<close>

text \<open>
  One file part of the multipart body. \<open>drawn_now\<close> is what \<open>Date.now()\<close> returns when
  the key of this file is generated, \<open>drawn_key\<close> and \<open>drawn_id\<close> are the random bytes of
  the two calls to \<open>crypto.randomUUID()\<close> made for it.
\<close>

record part =
  originalname :: string
  mimetype :: string
  part_size :: nat
  drawn_now :: nat
  drawn_key :: "nat \<Rightarrow> nat"
  drawn_id :: "nat \<Rightarrow> nat"

record request =
  req_eventId :: string
  req_guestName :: jsval
  req_files :: "part list"
  req_time :: string

datatype body = ErrorBody string | UploadedBody nat

record response =
  status :: nat
  body :: body

definition is_whitespace :: "char \<Rightarrow> bool" where
  "is_whitespace c = ((of_char c :: nat) \<in> {9, 10, 11, 12, 13, 32, 160})"

definition js_trim :: "string \<Rightarrow> string" where
  "js_trim s = rev (dropWhile is_whitespace (rev (dropWhile is_whitespace s)))"

definition sanitizeText :: "jsval \<Rightarrow> nat \<Rightarrow> string" where
  "sanitizeText value max_len =
     (case value of JsString v \<Rightarrow> slice0 max_len (js_trim v) | _ \<Rightarrow> [])"

definition fileFilter :: "part \<Rightarrow> thrown option" where
  \<comment> \<open>the error handed to \<open>cb\<close>, if any\<close>
  "fileFilter file =
     (let validType = (startsWith (mimetype file) ''image/'' \<or> startsWith (mimetype file) ''video/'')
      in if \<not> validType then Some (JsError ''Sadece foto veya video yuklenebilir.'') else None)"

definition disk_path :: "config \<Rightarrow> string \<Rightarrow> part \<Rightarrow> string" where
  \<comment> \<open>where the disk storage engine puts a file: \<open>destination\<close> joined with \<open>filename\<close>\<close>
  "disk_path cfg eid file =
     (let eventDir = path_join [UPLOADS_DIR cfg, eid]
      in path_join [eventDir, storage_filename (drawn_now file) (drawn_key file) (originalname file)])"

text \<open>
  The middleware \<open>middleware.array("files", MAX_FILES_PER_REQUEST)\<close> of the library multer,
  as \<open>uploadLocal\<close> and \<open>uploadSupabase\<close> configure it. The parts are handled in the order
  of the request: the count limit, then \<open>fileFilter\<close>, then the storage engine (the disk
  engine calls \<open>destination\<close>, which makes the directory of the event, and writes the
  file; the memory engine keeps a buffer), then the size limit. The first error ends the
  request: the engine is asked to remove the files it has stored, a removal that fails
  leaves its file, and the first error goes to the callback in either case.
\<close>

definition engine_store :: "config \<Rightarrow> env \<Rightarrow> string \<Rightarrow> part \<Rightarrow> world \<Rightarrow> thrown option \<times> world" where
  "engine_store cfg env eid file w =
     (if USING_SUPABASE cfg then (None, w)
      else
        (let eventDir = path_join [UPLOADS_DIR cfg, eid];
             w0 = w\<lparr>dirs := List.insert eventDir (dirs w)\<rparr>;
             finalPath = disk_path cfg eid file;
             w' = w0\<lparr>calls := calls w0 @ [DiskWrite finalPath]\<rparr>
         in case disk_write_error env finalPath of
              Some e \<Rightarrow>
                (Some e, if partial_file_left env finalPath
                         then w'\<lparr>disk := disk w' @ [finalPath]\<rparr> else w')
            | None \<Rightarrow> (None, w'\<lparr>disk := disk w' @ [finalPath]\<rparr>)))"

fun engine_remove :: "config \<Rightarrow> env \<Rightarrow> string \<Rightarrow> part list \<Rightarrow> world \<Rightarrow> world" where
  "engine_remove cfg env eid [] w = w"
| "engine_remove cfg env eid (file # files) w =
     (if USING_SUPABASE cfg then w
      else
        (let finalPath = disk_path cfg eid file;
             w' = w\<lparr>calls := calls w @ [DiskRemove finalPath]\<rparr>
         in engine_remove cfg env eid files
              (case disk_remove_error env finalPath of
                 Some e \<Rightarrow> w'
               | None \<Rightarrow> w'\<lparr>disk := removeAll finalPath (disk w')\<rparr>)))"

fun multer_array :: "config \<Rightarrow> env \<Rightarrow> string \<Rightarrow> part list \<Rightarrow> part list \<Rightarrow> world
    \<Rightarrow> thrown option \<times> part list \<times> world" where
  "multer_array cfg env eid [] stored w = (None, stored, w)"
| "multer_array cfg env eid (file # rest) stored w =
     (if MAX_FILES_PER_REQUEST cfg \<le> length stored then
        (Some (JsError ''Too many files''), [], engine_remove cfg env eid stored w)
      else
        (case fileFilter file of
           Some e \<Rightarrow> (Some e, [], engine_remove cfg env eid stored w)
         | None \<Rightarrow>
             (case engine_store cfg env eid file w of
                (Some e, w') \<Rightarrow> (Some e, [], engine_remove cfg env eid stored w')
              | (None, w') \<Rightarrow>
                  if MAX_FILE_SIZE_MB cfg * 1024 * 1024 < part_size file then
                    (Some (JsError ''File too large''), [], engine_remove cfg env eid (stored @ [file]) w')
                  else multer_array cfg env eid rest (stored @ [file]) w')))"

text \<open>The remote bucket: \<open>upload\<close> with \<open>upsert: false\<close>, and \<open>remove\<close>.\<close>

definition storage_upload :: "env \<Rightarrow> string \<Rightarrow> world \<Rightarrow> thrown option \<times> world" where
  "storage_upload env key w =
     (let w' = w\<lparr>calls := calls w @ [BucketUpload key]\<rparr>
      in case upload_error env key of
           Some e \<Rightarrow> (Some e, w')
         | None \<Rightarrow>
             if key \<in> set (bucket w) then (Some (JsError ''The resource already exists''), w')
             else (None, w'\<lparr>bucket := bucket w' @ [key]\<rparr>))"

definition storage_remove :: "env \<Rightarrow> string \<Rightarrow> world \<Rightarrow> thrown option \<times> world" where
  "storage_remove env key w =
     (let w' = w\<lparr>calls := calls w @ [BucketRemove key]\<rparr>
      in case remove_error env key of
           Some e \<Rightarrow> (Some e, w')
         | None \<Rightarrow> (None, w'\<lparr>bucket := removeAll key (bucket w')\<rparr>))"

definition new_record :: "string \<Rightarrow> string \<Rightarrow> string \<Rightarrow> part \<Rightarrow> string \<Rightarrow> upload" where
  \<comment> \<open>the object pushed to \<open>uploadRecords\<close>\<close>
  "new_record eid guest uploaded file key =
     \<lparr>upload_id = randomUUID (drawn_id file), eventId = eid, guestName = guest,
      originalName = originalname file, storagePath = key, mimeType = mimetype file,
      file_size = part_size file, uploadedAt = uploaded\<rparr>"

fun upload_files :: "env \<Rightarrow> string \<Rightarrow> string \<Rightarrow> string \<Rightarrow> part list \<Rightarrow> string list \<Rightarrow> upload list
    \<Rightarrow> world \<Rightarrow> thrown option \<times> string list \<times> upload list \<times> world" where
  \<comment> \<open>the loop of the remote branch; an upload error leaves it\<close>
  "upload_files env eid guest uploaded [] createdStoragePaths uploadRecords w =
     (None, createdStoragePaths, uploadRecords, w)"
| "upload_files env eid guest uploaded (file # rest) createdStoragePaths uploadRecords w =
     (let key = supabase_storagePath eid (drawn_now file) (drawn_key file) (originalname file)
      in case storage_upload env key w of
           (Some uploadError, w') \<Rightarrow> (Some uploadError, createdStoragePaths, uploadRecords, w')
         | (None, w') \<Rightarrow>
             upload_files env eid guest uploaded rest (createdStoragePaths @ [key])
               (uploadRecords @ [new_record eid guest uploaded file key]) w')"

definition local_records :: "string \<Rightarrow> string \<Rightarrow> string \<Rightarrow> part list \<Rightarrow> upload list" where
  \<comment> \<open>the loop of the local branch; \<open>file.filename\<close> is the name the disk engine chose\<close>
  "local_records eid guest uploaded files =
     map (\<lambda>file. new_record eid guest uploaded file
            (storage_filename (drawn_now file) (drawn_key file) (originalname file))) files"

fun remove_all_settled :: "env \<Rightarrow> string list \<Rightarrow> world \<Rightarrow> world" where
  \<comment> \<open>\<open>Promise.allSettled\<close> over the removals: their outcomes are dropped\<close>
  "remove_all_settled env [] w = w"
| "remove_all_settled env (key # keys) w = remove_all_settled env keys (snd (storage_remove env key w))"

definition error_message :: "thrown \<Rightarrow> string" where
  \<comment> \<open>\<open>error instanceof Error ? error.message : "Dosya yuklenemedi."\<close>\<close>
  "error_message error = (case error of JsError m \<Rightarrow> m | NonError \<Rightarrow> ''Dosya yuklenemedi.'')"

definition upload_failed :: "config \<Rightarrow> env \<Rightarrow> thrown \<Rightarrow> string list \<Rightarrow> world \<Rightarrow> response \<times> world" where
  \<comment> \<open>the inner \<open>catch\<close> block\<close>
  "upload_failed cfg env error createdStoragePaths w =
     (let w' = (if USING_SUPABASE cfg \<and> createdStoragePaths \<noteq> []
                then remove_all_settled env createdStoragePaths w else w)
      in (\<lparr>status = 500, body = ErrorBody (error_message error)\<rparr>, w'))"

definition upload_callback :: "config \<Rightarrow> env \<Rightarrow> request \<Rightarrow> thrown option \<Rightarrow> part list \<Rightarrow> world
    \<Rightarrow> response \<times> world" where
  \<comment> \<open>the callback of the middleware; \<open>files\<close> is \<open>req.files\<close>\<close>
  "upload_callback cfg env req err files w =
     (case err of
        Some e \<Rightarrow>
          (\<lparr>status = 400,
            body = ErrorBody (case e of JsError m \<Rightarrow> or_string m ''Dosya yuklenemedi.''
                                       | NonError \<Rightarrow> ''Dosya yuklenemedi.'')\<rparr>, w)
      | None \<Rightarrow>
          if files = [] then (\<lparr>status = 400, body = ErrorBody ''En az bir dosya secmelisin.''\<rparr>, w)
          else
            (let guest = sanitizeText (req_guestName req) 80;
                 uploaded = req_time req;
                 (failure, createdStoragePaths, uploadRecords, w1) =
                   (if USING_SUPABASE cfg
                    then upload_files env (req_eventId req) guest uploaded files [] [] w
                    else (None, [], local_records (req_eventId req) guest uploaded files, w))
             in case failure of
                  Some error \<Rightarrow> upload_failed cfg env error createdStoragePaths w1
                | None \<Rightarrow>
                    (case insertUploadRecords cfg env uploadRecords w1 of
                       (Some error, w2) \<Rightarrow> upload_failed cfg env error createdStoragePaths w2
                     | (None, w2) \<Rightarrow>
                         (\<lparr>status = 201, body = UploadedBody (length files)\<rparr>, w2))))"

definition upload_route :: "config \<Rightarrow> env \<Rightarrow> request \<Rightarrow> world \<Rightarrow> response \<times> world" where
  \<comment> \<open>\<open>app.post("/api/e/:eventId/upload", ...)\<close>\<close>
  "upload_route cfg env req w =
     (case findEventById cfg env (req_eventId req) w of
        (Inl error, w0) \<Rightarrow> (\<lparr>status = 500, body = ErrorBody (error_message error)\<rparr>, w0)
      | (Inr None, w0) \<Rightarrow> (\<lparr>status = 404, body = ErrorBody ''Etkinlik bulunamadi.''\<rparr>, w0)
      | (Inr (Some event), w0) \<Rightarrow>
          (case multer_array cfg env (req_eventId req) (req_files req) [] w0 of
             (err, files, w1) \<Rightarrow> upload_callback cfg env req err files w1))"

section \<open>The archive export\<close>

datatype source = LocalFile string | RemoteBody string

type_synonym archive = "(string \<times> source) list"

definition existsSync :: "world \<Rightarrow> string \<Rightarrow> bool" where
  \<comment> \<open>\<open>fs.existsSync(p)\<close>: true of a file and of a directory\<close>
  "existsSync w p = (p \<in> set (disk w) \<or> p \<in> set (dirs w))"

fun appendLocalUploadsToArchive :: "(string \<Rightarrow> string) \<Rightarrow> config \<Rightarrow> world \<Rightarrow> string \<Rightarrow> upload list
    \<Rightarrow> nat \<Rightarrow> archive \<Rightarrow> archive" where
  \<comment> \<open>the loop from \<open>index\<close> on, over the records that are left\<close>
  "appendLocalUploadsToArchive nfkd cfg w eid [] index archive = archive"
| "appendLocalUploadsToArchive nfkd cfg w eid (item # rest) index archive =
     (let filePath = path_join [UPLOADS_DIR cfg, eid, storagePath item]
      in if \<not> existsSync w filePath
         then appendLocalUploadsToArchive nfkd cfg w eid rest (index + 1) archive
         else appendLocalUploadsToArchive nfkd cfg w eid rest (index + 1)
                (archive @ [(buildArchiveEntryName nfkd item index, LocalFile filePath)]))"

fun appendSupabaseUploadsToArchive :: "(string \<Rightarrow> string) \<Rightarrow> env \<Rightarrow> upload list \<Rightarrow> nat \<Rightarrow> archive
    \<Rightarrow> thrown option \<times> archive" where
  "appendSupabaseUploadsToArchive nfkd env [] index archive = (None, archive)"
| "appendSupabaseUploadsToArchive nfkd env (item # rest) index archive =
     (case createSignedUrl env (storagePath item) of
        (error, signedUrl) \<Rightarrow>
          if error \<noteq> None \<or> or_null signedUrl = [] then
            (Some (case error of Some e \<Rightarrow> e
                               | None \<Rightarrow> JsError ''Supabase dosya URL olusturma hatasi.''), archive)
          else
            (case fetch env (or_null signedUrl) of
               Inl e \<Rightarrow> (Some e, archive)
             | Inr (ok, has_body) \<Rightarrow>
                 if \<not> ok \<or> \<not> has_body then
                   (Some (JsError (''Supabase dosya indirme hatasi: '' @ originalName item)), archive)
                 else
                   appendSupabaseUploadsToArchive nfkd env rest (index + 1)
                     (archive @ [(buildArchiveEntryName nfkd item index,
                                  RemoteBody (or_null signedUrl))])))"

section \<open>Notions used in the statements\<close>

definition is_digit :: "char \<Rightarrow> bool" where
  "is_digit c = ((48::nat) \<le> of_char c \<and> (of_char c :: nat) \<le> 57)"

definition decimal_value :: "string \<Rightarrow> nat" where
  "decimal_value s = foldl (\<lambda>a c. 10 * a + (of_char c - 48)) 0 s"

fun no_double_dash :: "string \<Rightarrow> bool" where
  "no_double_dash (a # b # s) = (\<not> (a = CHR ''-'' \<and> b = CHR ''-'') \<and> no_double_dash (b # s))"
| "no_double_dash _ = True"

definition present :: "string option \<Rightarrow> bool" where
  "present v = (case v of Some s \<Rightarrow> s \<noteq> [] | None \<Rightarrow> False)"

definition local_path :: "config \<Rightarrow> string \<Rightarrow> upload \<Rightarrow> string" where
  "local_path cfg eid u = path_join [UPLOADS_DIR cfg, eid, storagePath u]"

definition fetchable :: "env \<Rightarrow> upload \<Rightarrow> bool" where
  "fetchable env u =
     (case createSignedUrl env (storagePath u) of
        (error, url) \<Rightarrow>
          error = None \<and> or_null url \<noteq> [] \<and>
          (case fetch env (or_null url) of Inr (ok, has_body) \<Rightarrow> ok \<and> has_body | Inl _ \<Rightarrow> False))"

definition empty_db_file :: db_file where
  "empty_db_file = Json (JsonObject (Array []) (Array []))"

definition valid_type :: "part \<Rightarrow> bool" where
  "valid_type file = (startsWith (mimetype file) ''image/'' \<or> startsWith (mimetype file) ''video/'')"

definition valid_batch :: "config \<Rightarrow> part list \<Rightarrow> bool" where
  "valid_batch cfg files =
     (files \<noteq> [] \<and> length files \<le> MAX_FILES_PER_REQUEST cfg
      \<and> list_all (\<lambda>f. valid_type f \<and> part_size f \<le> MAX_FILE_SIZE_MB cfg * 1024 * 1024) files)"

definition no_failures :: "env \<Rightarrow> bool" where
  "no_failures env =
     (db_write_error env = None \<and> (\<forall>p. disk_write_error env p = None) \<and> select_error env = None
      \<and> insert_error env = None \<and> (\<forall>k. upload_error env k = None))"

definition storage_key :: "config \<Rightarrow> string \<Rightarrow> part \<Rightarrow> string" where
  "storage_key cfg eid file =
     (if USING_SUPABASE cfg
      then supabase_storagePath eid (drawn_now file) (drawn_key file) (originalname file)
      else storage_filename (drawn_now file) (drawn_key file) (originalname file))"

definition batch_records :: "config \<Rightarrow> request \<Rightarrow> upload list" where
  "batch_records cfg req =
     map (\<lambda>file. new_record (req_eventId req) (sanitizeText (req_guestName req) 80) (req_time req)
                    file (storage_key cfg (req_eventId req) file)) (req_files req)"

definition after_store :: "config \<Rightarrow> string \<Rightarrow> part list \<Rightarrow> world \<Rightarrow> world" where
  "after_store cfg eid files w =
     (if USING_SUPABASE cfg then w
      else w\<lparr>calls := calls w @ map (\<lambda>f. DiskWrite (disk_path cfg eid f)) files,
             disk := disk w @ map (disk_path cfg eid) files,
             dirs := (if files = [] then dirs w
                      else List.insert (path_join [UPLOADS_DIR cfg, eid]) (dirs w))\<rparr>)"

section \<open>Example data\<close>

definition demo_local :: config where
  "demo_local = \<lparr>USING_SUPABASE = False, UPLOADS_DIR = ''/srv/app/uploads'', MAX_FILE_SIZE_MB = 200,
                  MAX_FILES_PER_REQUEST = 20\<rparr>"

definition demo_remote :: config where
  "demo_remote = \<lparr>USING_SUPABASE = True, UPLOADS_DIR = ''/srv/app/uploads'', MAX_FILE_SIZE_MB = 200,
                   MAX_FILES_PER_REQUEST = 20\<rparr>"

definition calm :: env where
  "calm = \<lparr>db_write_error = None, disk_write_error = (\<lambda>p. None),
            partial_file_left = (\<lambda>p. False), disk_remove_error = (\<lambda>p. None), select_error = None,
            insert_error = None, upload_error = (\<lambda>k. None), remove_error = (\<lambda>k. None),
            createSignedUrl = (\<lambda>k. (None, Some (''https://signed/'' @ k))),
            fetch = (\<lambda>u. Inr (True, True)),
            localeCompare = (\<lambda>a b. 0), timestamp_compare = (\<lambda>a b. 0)\<rparr>"

definition full_disk :: env where
  "full_disk = calm\<lparr>db_write_error := Some (JsError ''ENOSPC'')\<rparr>"

definition failing_insert :: env where
  "failing_insert = calm\<lparr>insert_error := Some (JsError ''insert failed'')\<rparr>"

definition stuck_removal :: env where
  "stuck_removal = calm\<lparr>insert_error := Some (JsError ''insert failed''),
                        remove_error := (\<lambda>k. Some (JsError ''remove failed''))\<rparr>"

definition offline :: env where
  "offline = calm\<lparr>fetch := (\<lambda>u. Inr (False, True))\<rparr>"

definition demo_event :: event where
  "demo_event = \<lparr>ev_id = ''ab12cd'', eventName = ''Dugun'', eventDate = '''', ownerName = '''',
                  adminToken = ''s3cr3t'', createdAt = ''2024-05-01T09:00:00.000Z''\<rparr>"

definition demo_world :: world where
  "demo_world =
     \<lparr>db_file = Json (JsonObject (Array [demo_event]) (Array [])),
      disk = [], dirs = [],
      events_table = [\<lparr>row_id = ''ab12cd'', event_name = ''Dugun'', event_date = None,
                       owner_name = None, admin_token = ''s3cr3t'',
                       created_at = ''2024-05-01T09:00:00.000Z''\<rparr>],
      uploads_table = [], bucket = [], calls = []\<rparr>"

definition photo :: part where
  "photo = \<lparr>originalname = ''photo.png'', mimetype = ''image/png'', part_size = 1000,
             drawn_now = 17, drawn_key = (\<lambda>i. i), drawn_id = (\<lambda>i. 2 * i)\<rparr>"

definition document :: part where
  "document = \<lparr>originalname = ''menu.pdf'', mimetype = ''application/pdf'', part_size = 1000,
                drawn_now = 18, drawn_key = (\<lambda>i. 3 * i), drawn_id = (\<lambda>i. 5 * i)\<rparr>"

definition demo_request :: "part list \<Rightarrow> request" where
  "demo_request files = \<lparr>req_eventId = ''ab12cd'', req_guestName = JsString ''Ayse'',
                          req_files = files, req_time = ''2024-05-01T10:00:00.000Z''\<rparr>"

definition first_upload :: upload where
  "first_upload = \<lparr>upload_id = ''u1'', eventId = ''ab12cd'', guestName = ''Ayse'',
                    originalName = ''photo.jpg'', storagePath = ''17-k1.jpg'', mimeType = ''image/jpeg'',
                    file_size = 10, uploadedAt = ''2024-05-01T10:00:00.000Z''\<rparr>"

definition second_upload :: upload where
  "second_upload = \<lparr>upload_id = ''u2'', eventId = ''ab12cd'', guestName = '''',
                     originalName = ''photo.jpg'', storagePath = ''18-k2.jpg'', mimeType = ''image/jpeg'',
                     file_size = 10, uploadedAt = ''2024-05-01T10:00:01.000Z''\<rparr>"

definition legacy_item :: db_item where
  "legacy_item = \<lparr>item_id = ''u0'', item_eventId = ''ab12cd'', item_guestName = '''',
                   item_originalName = ''eski.jpg'', item_storagePath = None,
                   item_storedName = Some ''16-k0.jpg'', item_mimeType = ''image/jpeg'', item_size = 10,
                   item_uploadedAt = ''2024-04-01T10:00:00.000Z''\<rparr>"

definition bare_item :: db_item where
  "bare_item = \<lparr>item_id = ''u9'', item_eventId = ''ab12cd'', item_guestName = '''',
                 item_originalName = ''eski.jpg'', item_storagePath = None,
                 item_storedName = None, item_mimeType = ''image/jpeg'', item_size = 10,
                 item_uploadedAt = ''2024-03-01T10:00:00.000Z''\<rparr>"

definition legacy_world :: world where
  "legacy_world =
     demo_world\<lparr>db_file := Json (JsonObject (Array [demo_event]) (Array [bare_item])),
                 dirs := [''/srv/app/uploads/ab12cd'']\<rparr>"

definition stuck_unlink :: env where
  "stuck_unlink = calm\<lparr>disk_remove_error := (\<lambda>p. Some (JsError ''EPERM''))\<rparr>"

definition bitmap_upload :: upload where
  "bitmap_upload = \<lparr>upload_id = ''u5'', eventId = ''ab12cd'', guestName = '''',
                     originalName = ''tarama'', storagePath = ''19-k'', mimeType = ''image/bmp'',
                     file_size = 10, uploadedAt = ''2024-05-01T10:00:04.000Z''\<rparr>"

definition odd_upload :: upload where
  "odd_upload = \<lparr>upload_id = ''u6'', eventId = ''ab12cd'', guestName = '''',
                  originalName = ''x'', storagePath = ''20-k'', mimeType = ''constructor'',
                  file_size = 10, uploadedAt = ''2024-05-01T10:00:05.000Z''\<rparr>"

definition nameless_upload :: upload where
  "nameless_upload = \<lparr>upload_id = ''u3'', eventId = ''ab12cd'', guestName = '''',
                       originalName = '''', storagePath = ''abc.jpg'', mimeType = ''image/jpeg'',
                       file_size = 10, uploadedAt = ''2024-05-01T10:00:02.000Z''\<rparr>"

definition video_upload :: upload where
  "video_upload = \<lparr>upload_id = ''u4'', eventId = ''ab12cd'', guestName = ''Ayse'',
                    originalName = ''dugun videosu'', storagePath = ''1700000000000-k'',
                    mimeType = ''video/mp4'', file_size = 10,
                    uploadedAt = ''2024-05-01T10:00:03.000Z''\<rparr>"

definition demo_bytes :: "nat \<Rightarrow> nat" where
  "demo_bytes i = 17 * i + 3"

definition long_name :: string where
  "long_name = replicate 79 (CHR ''a'') @ '' b.jpg''"

lemmas demo_defs = demo_local_def demo_remote_def calm_def demo_event_def demo_world_def photo_def
  document_def demo_request_def

lemmas route_defs = upload_route_def findEventById_def readLocalDb_def parseLocalDb_def
  writeLocalDb_def upload_callback_def upload_failed_def insertUploadRecords_def fileFilter_def
  startsWith_def engine_store_def storage_upload_def storage_remove_def local_records_def
  error_message_def Let_def

section \<open>Decimal prefixes\<close>

lemma of_char_digit_char: "d < 10 \<Longrightarrow> (of_char (digit_char d) :: nat) = 48 + d"
proof -
  assume "d < 10"
  then have "d = 0 \<or> d = 1 \<or> d = 2 \<or> d = 3 \<or> d = 4 \<or> d = 5 \<or> d = 6 \<or> d = 7 \<or> d = 8 \<or> d = 9"
    by arith
  then show ?thesis by (elim disjE) (simp_all add: digit_char_def)
qed

lemma is_digit_digit_char: "d < 10 \<Longrightarrow> is_digit (digit_char d)"
  by (simp add: is_digit_def of_char_digit_char)

lemma digits_String_nat: "\<forall>c \<in> set (String_nat n). is_digit c"
proof (induction n rule: String_nat.induct)
  case (1 n)
  show ?case
  proof (cases "n < 10")
    case True
    then show ?thesis by (subst String_nat.simps) (simp add: is_digit_digit_char)
  next
    case False
    with 1 show ?thesis by (subst String_nat.simps) (auto simp: is_digit_digit_char)
  qed
qed

lemma decimal_value_snoc: "decimal_value (s @ [c]) = 10 * decimal_value s + (of_char c - 48)"
  by (simp add: decimal_value_def)

lemma decimal_value_String_nat: "decimal_value (String_nat n) = n"
proof (induction n rule: String_nat.induct)
  case (1 n)
  show ?case
  proof (cases "n < 10")
    case True
    then show ?thesis
      by (subst String_nat.simps) (simp add: decimal_value_def of_char_digit_char)
  next
    case False
    with 1 have "decimal_value (String_nat (n div 10)) = n div 10" by simp
    with False show ?thesis
      by (subst String_nat.simps) (simp add: decimal_value_snoc of_char_digit_char)
  qed
qed

lemma decimal_value_zeros: "decimal_value (replicate k (CHR ''0'') @ s) = decimal_value s"
proof -
  have "foldl (\<lambda>a c. 10 * a + (of_char c - 48)) 0 (replicate k (CHR ''0'')) = (0::nat)"
    by (induction k) simp_all
  then show ?thesis by (simp add: decimal_value_def)
qed

lemma decimal_value_padStart: "decimal_value (padStart 3 (CHR ''0'') (String_nat n)) = n"
  by (simp add: padStart_def decimal_value_zeros decimal_value_String_nat)

lemma digits_padStart: "\<forall>c \<in> set (padStart 3 (CHR ''0'') (String_nat n)). is_digit c"
  using digits_String_nat [of n] by (auto simp: padStart_def is_digit_def)

lemma length_padStart: "3 \<le> length (padStart 3 c s)"
  by (simp add: padStart_def)

lemma takeWhile_prefix_dash:
  assumes "\<forall>c \<in> set p. is_digit c"
  shows "takeWhile (\<lambda>c. c \<noteq> CHR ''-'') (p @ CHR ''-'' # r) = p"
proof -
  have "\<forall>c \<in> set p. c \<noteq> CHR ''-''" using assms by (auto simp: is_digit_def)
  then show ?thesis by (simp add: takeWhile_append2)
qed

lemma entry_prefix_of_name:
  "decimal_value (takeWhile (\<lambda>c. c \<noteq> CHR ''-'') (buildArchiveEntryName nfkd u i)) = i + 1"
proof -
  let ?p = "padStart 3 (CHR ''0'') (String_nat (i + 1))"
  have "\<exists>r. buildArchiveEntryName nfkd u i = ?p @ CHR ''-'' # r"
    unfolding buildArchiveEntryName_def Let_def by (cases "extname (sanitizeArchiveName nfkd
      (JsString (or_string (originalName u) (basename (or_string (storagePath u) []))))) = []") simp_all
  then obtain r where "buildArchiveEntryName nfkd u i = ?p @ CHR ''-'' # r" ..
  then show ?thesis
    using takeWhile_prefix_dash [OF digits_padStart] by (simp add: decimal_value_padStart)
qed

lemma String_nat_not_Nil: "String_nat n \<noteq> []"
  by (subst String_nat.simps) simp

lemma slash_notin_String_nat: "CHR ''/'' \<notin> set (String_nat n)"
  using digits_String_nat [of n] by (auto simp: is_digit_def)

lemma hd_String_nat_digit: "is_digit (hd (String_nat n))"
  using digits_String_nat [of n] String_nat_not_Nil [of n] by (cases "String_nat n") auto

section \<open>Properties of the filename sanitizer\<close>

lemma set_replace_runs: "set (replace_runs C s) \<subseteq> insert (CHR ''-'') {c \<in> set s. \<not> C c}"
proof (induction C s rule: replace_runs.induct)
  case (1 C)
  then show ?case by simp
next
  case (2 C c cs)
  have "set (dropWhile C cs) \<subseteq> set cs" by (simp add: set_dropWhileD subsetI)
  with 2 show ?case by auto
qed

lemma hd_replace_runs_dropWhile:
  "replace_runs C (dropWhile C cs) = [] \<or> \<not> C (hd (replace_runs C (dropWhile C cs)))"
proof (cases "dropWhile C cs")
  case Nil
  then show ?thesis by (simp del: dropWhile_eq_Nil_conv)
next
  case (Cons x xs)
  then have "\<not> C x" using hd_dropWhile [of C cs] by simp
  with Cons show ?thesis by simp
qed

lemma no_double_dash_Cons:
  "no_double_dash (a # s) = ((s = [] \<or> \<not> (a = CHR ''-'' \<and> hd s = CHR ''-'')) \<and> no_double_dash s)"
  by (cases s) auto

lemma no_double_dash_collapse: "no_double_dash (replace_runs (\<lambda>c. c = CHR ''-'') s)"
proof (induction "\<lambda>c. c = CHR ''-''" s rule: replace_runs.induct)
  case 1
  then show ?case by simp
next
  case (2 c cs)
  show ?case
  proof (cases "c = CHR ''-''")
    case True
    with 2 hd_replace_runs_dropWhile [of "\<lambda>c. c = CHR ''-''" cs] show ?thesis
      by (auto simp: no_double_dash_Cons)
  next
    case False
    with 2 show ?thesis by (auto simp: no_double_dash_Cons)
  qed
qed

lemma no_double_dash_tl: "no_double_dash s \<Longrightarrow> no_double_dash (tl s)"
  by (cases s) (auto simp: no_double_dash_Cons)

lemma no_double_dash_take: "no_double_dash s \<Longrightarrow> no_double_dash (take n s)"
proof (induction s arbitrary: n)
  case Nil
  then show ?case by simp
next
  case (Cons a s)
  show ?case
  proof (cases n)
    case 0
    then show ?thesis by simp
  next
    case (Suc m)
    from Cons.prems have p: "s = [] \<or> \<not> (a = CHR ''-'' \<and> hd s = CHR ''-'')" and q: "no_double_dash s"
      by (simp_all add: no_double_dash_Cons)
    have "no_double_dash (take m s)" using Cons.IH [OF q] .
    moreover have "take m s = [] \<or> \<not> (a = CHR ''-'' \<and> hd (take m s) = CHR ''-'')"
      using p by (cases "m = 0") (auto simp: hd_take)
    ultimately show ?thesis using Suc by (simp add: no_double_dash_Cons)
  qed
qed

lemma no_double_dash_butlast: "no_double_dash s \<Longrightarrow> no_double_dash (butlast s)"
  using no_double_dash_take [of s "length s - 1"] by (simp add: butlast_conv_take)

lemma no_double_dash_trim: "no_double_dash s \<Longrightarrow> no_double_dash (trim_dash s)"
  using no_double_dash_tl [of s]
  by (cases s) (auto simp: trim_dash_def Let_def no_double_dash_butlast)

lemma set_trim_dash: "set (trim_dash s) \<subseteq> set s"
  by (cases s) (auto simp: trim_dash_def Let_def dest: in_set_butlastD)

lemma hd_butlast: "butlast s \<noteq> [] \<Longrightarrow> hd (butlast s) = hd s"
  by (cases s) auto

lemma trim_dash_no_leading:
  "no_double_dash s \<Longrightarrow> trim_dash s \<noteq> [] \<Longrightarrow> hd (trim_dash s) \<noteq> CHR ''-''"
proof (cases s)
  case Nil
  assume "trim_dash s \<noteq> []"
  with Nil show ?thesis by (simp add: trim_dash_def)
next
  case (Cons c cs)
  assume n: "no_double_dash s" and t: "trim_dash s \<noteq> []"
  define t where "t = (if c = CHR ''-'' then cs else s)"
  have tr: "trim_dash s = (if t \<noteq> [] \<and> last t = CHR ''-'' then butlast t else t)"
    by (simp add: trim_dash_def t_def Cons)
  have "t \<noteq> []" using t tr by auto
  have ht: "hd t \<noteq> CHR ''-''"
    using n Cons \<open>t \<noteq> []\<close> by (auto simp: t_def no_double_dash_Cons)
  show ?thesis using t tr ht hd_butlast [of t] by (auto split: if_splits)
qed

lemma sanitize_string_safe: "\<forall>c \<in> set (sanitize_string nfkd v). is_safe_char c"
proof -
  let ?a = "filter is_ascii (nfkd v)"
  let ?b = "replace_runs (\<lambda>c. \<not> is_safe_char c) ?a"
  let ?c = "replace_runs (\<lambda>c. c = CHR ''-'') ?b"
  have b: "\<forall>c \<in> set ?b. is_safe_char c"
    using set_replace_runs [of "\<lambda>c. \<not> is_safe_char c" ?a] by (auto simp: is_safe_char_def)
  have c: "\<forall>c \<in> set ?c. is_safe_char c"
    using set_replace_runs [of "\<lambda>c. c = CHR ''-''" ?b] b by (auto simp: is_safe_char_def)
  have "set (sanitize_string nfkd v) \<subseteq> set ?c"
    using set_trim_dash [of ?c] set_take_subset [of 80 "trim_dash ?c"]
    by (auto simp: sanitize_string_def slice0_def)
  with c show ?thesis by blast
qed

lemma sanitize_string_shape:
  "length (sanitize_string nfkd v) \<le> 80 \<and> no_double_dash (sanitize_string nfkd v)
   \<and> (sanitize_string nfkd v \<noteq> [] \<longrightarrow> hd (sanitize_string nfkd v) \<noteq> CHR ''-'')"
proof -
  let ?c = "replace_runs (\<lambda>c. c = CHR ''-'') (replace_runs (\<lambda>c. \<not> is_safe_char c) (filter is_ascii (nfkd v)))"
  have s: "sanitize_string nfkd v = take 80 (trim_dash ?c)"
    by (simp add: sanitize_string_def slice0_def)
  have n: "no_double_dash (trim_dash ?c)"
    by (rule no_double_dash_trim [OF no_double_dash_collapse])
  have h: "trim_dash ?c \<noteq> [] \<Longrightarrow> hd (trim_dash ?c) \<noteq> CHR ''-''"
    by (rule trim_dash_no_leading [OF no_double_dash_collapse])
  show ?thesis
    unfolding s using n h by (auto simp: no_double_dash_take hd_take)
qed

text \<open>
  What every result of the sanitizer satisfies: it is not empty, has at most 80
  characters, all of them from \<open>[A-Za-z0-9._-]\<close>, no two dashes in a row, and no dash at
  the start. A non-string argument gives the placeholder \<open>arsiv\<close>.
\<close>

lemma sanitizeArchiveName_holds:
  "sanitizeArchiveName nfkd x \<noteq> [] \<and> length (sanitizeArchiveName nfkd x) \<le> 80
   \<and> (\<forall>c \<in> set (sanitizeArchiveName nfkd x). is_safe_char c)
   \<and> no_double_dash (sanitizeArchiveName nfkd x)
   \<and> hd (sanitizeArchiveName nfkd x) \<noteq> CHR ''-''"
proof (cases x)
  case (JsString v)
  show ?thesis
  proof (cases "sanitize_string nfkd v = []")
    case True
    with JsString show ?thesis by (simp add: sanitizeArchiveName_def is_safe_char_def)
  next
    case False
    with JsString sanitize_string_safe [of nfkd v] sanitize_string_shape [of nfkd v]
    show ?thesis by (simp add: sanitizeArchiveName_def)
  qed
qed (simp_all add: sanitizeArchiveName_def is_safe_char_def)

lemma sanitizeArchiveName_non_string:
  "sanitizeArchiveName nfkd JsUndefined = ''arsiv'' \<and> sanitizeArchiveName nfkd JsNull = ''arsiv''
   \<and> sanitizeArchiveName nfkd (JsNumber n) = ''arsiv'' \<and> sanitizeArchiveName nfkd (JsBoolean b) = ''arsiv''"
  by (simp add: sanitizeArchiveName_def)

text \<open>
  C6. The sanitizer is to return a name with no dash at its end. \<open>slice(0, 80)\<close> runs
  after the dashes at the ends are trimmed, so a name cut right behind a dash keeps that
  dash: for 79 letters \<open>a\<close> followed by \<open>" b.jpg"\<close> the result is the 79
  letters and a dash.
\<close>

theorem sanitize_trailing_dash:
  "sanitizeArchiveName id (JsString long_name) = replicate 79 (CHR ''a'') @ ''-''
   \<and> last (sanitizeArchiveName id (JsString long_name)) = CHR ''-''"
  by code_simp

section \<open>Storage keys stay in the namespace of the event\<close>

lemma slash_notin_last_component: "CHR ''/'' \<notin> set (last_component p)"
  by (auto simp: last_component_def dest: set_takeWhileD)

lemma set_extname: "set (extname p) \<subseteq> set (last_component p)"
  by (auto simp: extname_def Let_def dest: set_takeWhileD)

lemma slash_notin_extname: "CHR ''/'' \<notin> set (extname p)"
  using set_extname [of p] slash_notin_last_component [of p] by blast

lemma hex_digit_cases: "hex_digit n \<in> set ''0123456789abcdef''"
  unfolding hex_digit_def by (rule nth_mem) simp

lemma slash_notin_hex_byte: "CHR ''/'' \<notin> set (hex_byte b)"
  using hex_digit_cases [of b] hex_digit_cases [of "b div 16"] by (auto simp: hex_byte_def)

lemma slash_notin_randomUUID: "CHR ''/'' \<notin> set (randomUUID rnd)"
  by (auto simp: randomUUID_def Let_def slash_notin_hex_byte)

lemma storage_filename_plain:
  "CHR ''/'' \<notin> set (storage_filename now rnd name)
   \<and> storage_filename now rnd name \<noteq> [] \<and> storage_filename now rnd name \<noteq> ''.''
   \<and> storage_filename now rnd name \<noteq> ''..''"
proof -
  obtain d ds where d: "String_nat now = d # ds" using String_nat_not_Nil [of now] by (cases "String_nat now") auto
  have "is_digit d" using hd_String_nat_digit [of now] d by simp
  then have "d \<noteq> CHR ''.''" by (auto simp: is_digit_def)
  then show ?thesis
    using slash_notin_String_nat [of now] slash_notin_randomUUID [of rnd] slash_notin_extname
    by (auto simp: storage_filename_def Let_def d)
qed

lemma split_slash_not_Nil: "split_slash s \<noteq> []"
  by (induction s) (auto split: list.splits)

lemma split_slash_plain: "CHR ''/'' \<notin> set f \<Longrightarrow> split_slash f = [f]"
  by (induction f) auto

lemma split_slash_append: "split_slash (d @ CHR ''/'' # f) = split_slash d @ split_slash f"
  using split_slash_not_Nil by (induction d) (auto split: list.splits)

lemma normalize_segments_snoc:
  assumes "CHR ''/'' \<notin> set f" "f \<noteq> []" "f \<noteq> ''.''" "f \<noteq> ''..''"
  shows "normalize_segments a (d @ CHR ''/'' # f) = normalize_segments a d @ [f]"
  using assms by (simp add: normalize_segments_def split_slash_append split_slash_plain normalize_step_def)

lemma normalize_segments_plain:
  assumes "CHR ''/'' \<notin> set f" "f \<noteq> []" "f \<noteq> ''.''" "f \<noteq> ''..''"
  shows "normalize_segments a f = [f]"
  using assms by (simp add: normalize_segments_def split_slash_plain normalize_step_def)

lemma join_slash_snoc: "join_slash (xs @ [f]) = (if xs = [] then f else join_slash xs @ CHR ''/'' # f)"
  by (induction xs rule: join_slash.induct) auto

lemma normalize_plain_tail:
  assumes "CHR ''/'' \<notin> set f" "f \<noteq> []" "f \<noteq> ''.''" "f \<noteq> ''..''" and p: "p = d @ CHR ''/'' # f \<or> (p = f \<and> d = [])"
  shows "normalize p =
           (if hd p = CHR ''/'' then ''/'' else [])
           @ join_slash (normalize_segments (hd p \<noteq> CHR ''/'') d @ [f])"
proof -
  have ne: "p \<noteq> []" using p assms(2) by auto
  have l: "last p \<noteq> CHR ''/''"
    using p assms(1,2) by (cases f rule: rev_cases) auto
  have seg: "normalize_segments a p = normalize_segments a d @ [f]" for a
  proof -
    from p show ?thesis
    proof
      assume "p = d @ CHR ''/'' # f"
      then show ?thesis using normalize_segments_snoc [OF assms(1-4)] by simp
    next
      assume "p = f \<and> d = []"
      then show ?thesis using normalize_segments_plain [OF assms(1-4)]
        by (simp add: normalize_segments_def normalize_step_def)
    qed
  qed
  have b: "join_slash (normalize_segments a d @ [f]) \<noteq> []" for a
    using assms(2) by (simp add: join_slash_snoc)
  show ?thesis
    unfolding normalize_def Let_def seg using ne l b by simp
qed

lemma path_join_plain:
  assumes "CHR ''/'' \<notin> set f" "f \<noteq> []" "f \<noteq> ''.''" "f \<noteq> ''..''"
  shows "path_join [dir, f] =
           (if dir \<noteq> [] \<and> hd dir = CHR ''/'' then ''/'' else [])
           @ join_slash (normalize_segments (\<not> (dir \<noteq> [] \<and> hd dir = CHR ''/'')) dir @ [f])"
proof (cases "dir = []")
  case True
  have h: "hd f \<noteq> CHR ''/''" using assms(1,2) by (cases f) auto
  have "path_join [dir, f] = normalize f"
    using True assms(2) by (simp add: path_join_def)
  also have "\<dots> = (if hd f = CHR ''/'' then ''/'' else [])
           @ join_slash (normalize_segments (hd f \<noteq> CHR ''/'') dir @ [f])"
    by (rule normalize_plain_tail [OF assms]) (simp add: True)
  finally show ?thesis using True h by simp
next
  case False
  have "path_join [dir, f] = normalize (dir @ CHR ''/'' # f)"
    using False assms(2) by (simp add: path_join_def)
  also have "\<dots> = (if hd (dir @ CHR ''/'' # f) = CHR ''/'' then ''/'' else [])
           @ join_slash (normalize_segments (hd (dir @ CHR ''/'' # f) \<noteq> CHR ''/'') dir @ [f])"
    by (rule normalize_plain_tail [OF assms]) simp
  finally show ?thesis using False by simp
qed

text \<open>
  C8. Whatever the original filename is, the extension taken from it has no path
  separator; the name of the stored file is the generated \<open>timestamp-uuid\<close> followed by
  that extension, it has no separator and is neither \<open>.\<close> nor \<open>..\<close>; the remote key is
  the event id, a slash and that name; and on disk the file lies directly in the
  directory it is joined to: the segments of its path are those of the directory
  followed by the name.
\<close>

theorem storage_key_in_namespace:
  "CHR ''/'' \<notin> set (extname name)
   \<and> storage_filename now rnd name = (String_nat now @ ''-'' @ randomUUID rnd) @ extname name
   \<and> CHR ''/'' \<notin> set (storage_filename now rnd name)
   \<and> storage_filename now rnd name \<noteq> ''.'' \<and> storage_filename now rnd name \<noteq> ''..''
   \<and> supabase_storagePath e now rnd name = e @ ''/'' @ storage_filename now rnd name
   \<and> path_join [dir, storage_filename now rnd name] =
       (if dir \<noteq> [] \<and> hd dir = CHR ''/'' then ''/'' else [])
       @ join_slash (normalize_segments (\<not> (dir \<noteq> [] \<and> hd dir = CHR ''/'')) dir
                     @ [storage_filename now rnd name])"
proof -
  note p = storage_filename_plain [of now rnd name]
  have "path_join [dir, storage_filename now rnd name] =
       (if dir \<noteq> [] \<and> hd dir = CHR ''/'' then ''/'' else [])
       @ join_slash (normalize_segments (\<not> (dir \<noteq> [] \<and> hd dir = CHR ''/'')) dir
                     @ [storage_filename now rnd name])"
    using p by (intro path_join_plain) simp_all
  moreover have "storage_filename now rnd name = (String_nat now @ ''-'' @ randomUUID rnd) @ extname name"
    by (simp add: storage_filename_def or_string_def)
  moreover have "supabase_storagePath e now rnd name = e @ ''/'' @ storage_filename now rnd name"
    by (simp add: storage_filename_def supabase_storagePath_def)
  ultimately show ?thesis using p slash_notin_extname [of name] by blast
qed

lemma String_nat_now: "String_nat 1700000000000 = ''1700000000000''"
  by (simp add: String_nat.simps digit_char_def)

lemma uuid_ex: "randomUUID demo_bytes = ''03142536-4758-497a-8b9c-adbecfe0f102''"
  by (simp add: randomUUID_def hex_byte_def hex_digit_def upt_rec demo_bytes_def)

lemma ext_ex: "extname ''../../etc/passwd.x/../y.sh'' = ''.sh''"
  by (simp add: extname_def last_component_def)

theorem storage_key_in_namespace_witness:
  "supabase_storagePath ''ab12cd'' 1700000000000 demo_bytes ''../../etc/passwd.x/../y.sh'' =
     ''ab12cd/1700000000000-03142536-4758-497a-8b9c-adbecfe0f102.sh''
   \<and> path_join [''/srv/app/uploads/ab12cd'',
                 storage_filename 1700000000000 demo_bytes ''../../etc/passwd.x/../y.sh''] =
     ''/srv/app/uploads/ab12cd/1700000000000-03142536-4758-497a-8b9c-adbecfe0f102.sh''"
  using storage_key_in_namespace [of "''../../etc/passwd.x/../y.sh''" 1700000000000 demo_bytes
      "''ab12cd''" "''/srv/app/uploads/ab12cd''"]
  by (simp add: String_nat_now uuid_ex ext_ex storage_filename_def supabase_storagePath_def or_string_def
        normalize_segments_def normalize_step_def)

section \<open>Properties of the archive entry names\<close>

text \<open>
  C4, as amended. The entry name of the record at index \<open>i\<close> is the decimal numeral of
  \<open>i + 1\<close>, padded with zeros to at least three digits, a dash, and the sanitized
  original filename; when the original filename is empty, the base name of the storage
  key is sanitized in its place. When the sanitized name has no extension, the extension
  of the storage key is appended, else the one that the table gives for the content type
  (\<open>.mp4\<close> for \<open>video/mp4\<close>), else, for a content type that is not the name of a
  property that every object inherits, nothing.
\<close>

theorem archive_entry_name:
  "(let name = (if originalName u \<noteq> [] then originalName u else basename (storagePath u));
        safe = sanitizeArchiveName nfkd (JsString name);
        ext = (if extname safe \<noteq> [] then []
               else if extname (storagePath u) \<noteq> [] then extname (storagePath u)
               else getExtensionFromMime (mimeType u));
        prefix = padStart 3 (CHR ''0'') (String_nat (i + 1))
    in buildArchiveEntryName nfkd u i = prefix @ ''-'' @ safe @ ext
       \<and> 3 \<le> length prefix \<and> list_all is_digit prefix \<and> decimal_value prefix = i + 1)
   \<and> (\<forall>e. map_of extensions (mimeType u) = Some e \<longrightarrow> getExtensionFromMime (mimeType u) = e)
   \<and> (map_of extensions (mimeType u) = None \<and> map_of inherited (mimeType u) = None
        \<longrightarrow> getExtensionFromMime (mimeType u) = [])
   \<and> getExtensionFromMime ''video/mp4'' = ''.mp4''"
proof -
  have "getExtensionFromMime ''video/mp4'' = ''.mp4''"
    by (simp add: getExtensionFromMime_def extensions_def)
  moreover have "list_all is_digit (padStart 3 (CHR ''0'') (String_nat (i + 1)))"
    using digits_padStart [of "i + 1"] by (simp add: list_all_iff)
  moreover have "decimal_value (padStart 3 (CHR ''0'') (String_nat (i + 1))) = i + 1"
    by (rule decimal_value_padStart)
  moreover have "3 \<le> length (padStart 3 (CHR ''0'') (String_nat (i + 1)))"
    by (rule length_padStart)
  moreover have "\<forall>e. map_of extensions (mimeType u) = Some e \<longrightarrow> getExtensionFromMime (mimeType u) = e"
    by (simp add: getExtensionFromMime_def)
  moreover have "map_of extensions (mimeType u) = None \<and> map_of inherited (mimeType u) = None
        \<longrightarrow> getExtensionFromMime (mimeType u) = []"
    by (simp add: getExtensionFromMime_def)
  ultimately show ?thesis
    by (simp add: buildArchiveEntryName_def Let_def or_string_def)
qed

theorem archive_entry_name_witness:
  "buildArchiveEntryName id video_upload 11 = ''012-dugun-videosu.mp4''
   \<and> buildArchiveEntryName id nameless_upload 0 = ''001-abc.jpg''
   \<and> buildArchiveEntryName id bitmap_upload 1 = ''002-tarama''
   \<and> map_of extensions (mimeType video_upload) = Some ''.mp4''
   \<and> map_of extensions (mimeType bitmap_upload) = None
   \<and> map_of inherited (mimeType bitmap_upload) = None"
proof -
  have n: "buildArchiveEntryName id video_upload 11 = ''012-dugun-videosu.mp4''"
    "buildArchiveEntryName id nameless_upload 0 = ''001-abc.jpg''"
    "buildArchiveEntryName id bitmap_upload 1 = ''002-tarama''"
    by code_simp+
  have t: "map_of extensions (mimeType video_upload) = Some ''.mp4''"
    "map_of extensions (mimeType bitmap_upload) = None"
    "map_of inherited (mimeType bitmap_upload) = None"
    by code_simp+
  show ?thesis
    using archive_entry_name [of video_upload id 11] archive_entry_name [of nameless_upload id 0]
      archive_entry_name [of bitmap_upload id 1] n t
    by simp
qed

text \<open>
  The record \<open>nameless_upload\<close> has an empty original filename, whose sanitized form is
  the placeholder; its entry name does not start with the number, a dash and the
  placeholder.
\<close>

theorem archive_entry_name_counterexample:
  "take 9 (buildArchiveEntryName id nameless_upload 0)
     \<noteq> ''001-'' @ sanitizeArchiveName id (JsString (originalName nameless_upload))"
  by code_simp

text \<open>
  A content type that is the name of an inherited property: the text of the inherited
  function is appended.
\<close>

lemma entry_name_of_inherited_property:
  "buildArchiveEntryName id odd_upload 0 = ''001-xfunction Object() { [native code] }''"
  by code_simp

text \<open>
  C5. In one export, the entry names of two different indices differ, whatever the
  original filenames are.
\<close>

theorem entry_names_distinct:
  "i < length us \<Longrightarrow> j < length us \<Longrightarrow> i \<noteq> j \<Longrightarrow>
   buildArchiveEntryName nfkd (us ! i) i \<noteq> buildArchiveEntryName nfkd (us ! j) j"
  using entry_prefix_of_name [of nfkd "us ! i" i] entry_prefix_of_name [of nfkd "us ! j" j]
  by auto

theorem entry_names_distinct_witness:
  "buildArchiveEntryName id ([first_upload, second_upload] ! 0) 0
     \<noteq> buildArchiveEntryName id ([first_upload, second_upload] ! 1) 1
   \<and> originalName first_upload = originalName second_upload"
  using entry_names_distinct [of 0 "[first_upload, second_upload]" 1 id]
  by (simp add: first_upload_def second_upload_def)

section \<open>Properties of the local database file\<close>

lemma parseLocalDb_broken:
  assumes "f = NoFile \<or> f = Unparsable \<or> (\<exists>j. f = Json j \<and> (\<forall>es us. j \<noteq> JsonObject (Array es) (Array us)))"
  shows "\<exists>e. parseLocalDb f = Inl e"
  using assms by (auto simp: parseLocalDb_def split: db_file.splits db_json.splits json_field.splits)

lemma parseLocalDb_empty: "parseLocalDb empty_db_file = Inr \<lparr>events = [], uploads = []\<rparr>"
  by (simp add: parseLocalDb_def empty_db_file_def)

lemma readLocalDb_broken:
  assumes "f = NoFile \<or> f = Unparsable \<or> (\<exists>j. f = Json j \<and> (\<forall>es us. j \<noteq> JsonObject (Array es) (Array us)))"
    and "db_file w = f" and "db_write_error env = None"
  shows "readLocalDb env w = (Inr \<lparr>events = [], uploads = []\<rparr>, w\<lparr>db_file := empty_db_file\<rparr>)"
proof -
  obtain e where "parseLocalDb (db_file w) = Inl e"
    using parseLocalDb_broken [OF assms(1)] assms(2) by auto
  then show ?thesis using assms(3)
    by (simp add: readLocalDb_def writeLocalDb_def empty_db_file_def)
qed

lemma readLocalDb_empty:
  "db_file w = empty_db_file \<Longrightarrow> readLocalDb env w = (Inr \<lparr>events = [], uploads = []\<rparr>, w)"
  by (simp add: readLocalDb_def parseLocalDb_empty)

lemma readLocalDb_parsed: "parseLocalDb (db_file w) = Inr db \<Longrightarrow> readLocalDb env w = (Inr db, w)"
  by (simp add: readLocalDb_def)

lemma parseLocalDb_written:
  "parseLocalDb (Json (JsonObject (Array es) (Array us))) = Inr \<lparr>events = es, uploads = us\<rparr>"
  by (simp add: parseLocalDb_def)

lemma js_sort_Nil: "js_sort cmp [] = []"
  by (simp add: js_sort_def)

lemma set_insert_by: "set (insert_by cmp x xs) = insert x (set xs)"
  by (induction xs) auto

lemma set_js_sort: "set (js_sort cmp xs) = set xs"
  by (induction xs) (simp_all add: js_sort_def set_insert_by)

lemma mset_insert_by: "mset (insert_by cmp x xs) = add_mset x (mset xs)"
  by (induction xs) auto

lemma mset_js_sort: "mset (js_sort cmp xs) = mset xs"
  by (induction xs) (simp_all add: js_sort_def mset_insert_by)

text \<open>
  C9, as amended. In local mode, when the database file is missing, is not JSON, or is a
  document without both arrays, and the write of the empty database to the file
  succeeds, a read returns the empty database
  and leaves the empty database in the file; no error reaches the caller, and from then
  on no event and no upload is found, by this read or by any later one.
\<close>

theorem readLocalDb_resets:
  assumes "db_file w = NoFile \<or> db_file w = Unparsable
           \<or> (\<exists>j. db_file w = Json j \<and> (\<forall>es us. j \<noteq> JsonObject (Array es) (Array us)))"
    and "db_write_error env = None" and "\<not> USING_SUPABASE cfg"
  shows "readLocalDb env w = (Inr \<lparr>events = [], uploads = []\<rparr>, w\<lparr>db_file := empty_db_file\<rparr>)
     \<and> readLocalDb env (w\<lparr>db_file := empty_db_file\<rparr>)
         = (Inr \<lparr>events = [], uploads = []\<rparr>, w\<lparr>db_file := empty_db_file\<rparr>)
     \<and> listUploadsForEvent cfg env eid w = (Inr [], w\<lparr>db_file := empty_db_file\<rparr>)
     \<and> findEventById cfg env eid w = (Inr None, w\<lparr>db_file := empty_db_file\<rparr>)
     \<and> listUploadsForEvent cfg env eid (w\<lparr>db_file := empty_db_file\<rparr>)
         = (Inr [], w\<lparr>db_file := empty_db_file\<rparr>)
     \<and> findEventById cfg env eid (w\<lparr>db_file := empty_db_file\<rparr>)
         = (Inr None, w\<lparr>db_file := empty_db_file\<rparr>)"
proof -
  have r: "readLocalDb env w = (Inr \<lparr>events = [], uploads = []\<rparr>, w\<lparr>db_file := empty_db_file\<rparr>)"
    using readLocalDb_broken [OF assms(1) refl assms(2)] .
  have r': "readLocalDb env (w\<lparr>db_file := empty_db_file\<rparr>)
         = (Inr \<lparr>events = [], uploads = []\<rparr>, w\<lparr>db_file := empty_db_file\<rparr>)"
    by (rule readLocalDb_empty) simp
  show ?thesis
    using assms(3) by (simp add: r r' listUploadsForEvent_def findEventById_def js_sort_Nil)
qed

theorem readLocalDb_resets_witness:
  "readLocalDb calm (demo_world\<lparr>db_file := Json (JsonObject (Array [demo_event]) Absent)\<rparr>)
     = (Inr \<lparr>events = [], uploads = []\<rparr>, demo_world\<lparr>db_file := empty_db_file\<rparr>)
   \<and> findEventById demo_local calm ''ab12cd''
        (demo_world\<lparr>db_file := Json (JsonObject (Array [demo_event]) Absent)\<rparr>)
     = (Inr None, demo_world\<lparr>db_file := empty_db_file\<rparr>)"
  using readLocalDb_resets [of "demo_world\<lparr>db_file := Json (JsonObject (Array [demo_event]) Absent)\<rparr>"
      calm demo_local "''ab12cd''"]
  by (simp add: calm_def demo_local_def)

text \<open>
  When the file is missing and cannot be written either, the read ends with the error of
  the write, the file stays as it was, and the listing of an event ends with that error.
\<close>

theorem readLocalDb_resets_counterexample:
  "readLocalDb full_disk (demo_world\<lparr>db_file := NoFile\<rparr>)
     = (Inl (JsError ''ENOSPC''), demo_world\<lparr>db_file := NoFile\<rparr>)
   \<and> fst (listUploadsForEvent demo_local full_disk ''ab12cd'' (demo_world\<lparr>db_file := NoFile\<rparr>))
     = Inl (JsError ''ENOSPC'')"
  by (simp add: readLocalDb_def parseLocalDb_def writeLocalDb_def listUploadsForEvent_def
      full_disk_def calm_def demo_local_def)

lemma storagePath_of_item:
  "(present (item_storagePath item) \<longrightarrow> storagePath (of_item item) = the (item_storagePath item))
   \<and> (\<not> present (item_storagePath item) \<and> present (item_storedName item)
        \<longrightarrow> storagePath (of_item item) = the (item_storedName item))
   \<and> (\<not> present (item_storagePath item) \<and> \<not> present (item_storedName item)
        \<longrightarrow> storagePath (of_item item) = [])"
  by (auto simp: of_item_def or_field_def present_def split: option.splits)

text \<open>
  C10. In local mode every record that \<open>listUploadsForEvent\<close> returns comes from a stored
  record of that event, and its \<open>storagePath\<close> is a string: the stored \<open>storagePath\<close>
  when that is present, else the stored \<open>storedName\<close> when that is present, else the
  empty string. As with \<open>||\<close> in the source, a field is present when it is there and
  is not the empty string.
\<close>

theorem listUploads_storagePath:
  assumes "\<not> USING_SUPABASE cfg" and "fst (listUploadsForEvent cfg env eid w) = Inr us"
    and "r \<in> set us"
  shows "\<exists>db item. fst (readLocalDb env w) = Inr db \<and> item \<in> set (uploads db)
           \<and> item_eventId item = eid \<and> r = of_item item
           \<and> (present (item_storagePath item) \<longrightarrow> storagePath r = the (item_storagePath item))
           \<and> (\<not> present (item_storagePath item) \<and> present (item_storedName item)
                \<longrightarrow> storagePath r = the (item_storedName item))
           \<and> (\<not> present (item_storagePath item) \<and> \<not> present (item_storedName item)
                \<longrightarrow> storagePath r = [])"
proof -
  obtain res w' where rd: "readLocalDb env w = (res, w')" by (cases "readLocalDb env w")
  show ?thesis
  proof (cases res)
    case (Inl e)
    with assms rd show ?thesis by (simp add: listUploadsForEvent_def)
  next
    case (Inr db)
    with assms(1,2) rd have
      "us = js_sort (\<lambda>a b. localeCompare env (uploadedAt b) (uploadedAt a))
              (map of_item (filter (\<lambda>item. item_eventId item = eid) (uploads db)))"
      by (simp add: listUploadsForEvent_def)
    with assms(3) obtain item where i: "item \<in> set (uploads db)" "item_eventId item = eid" "r = of_item item"
      by (auto simp: set_js_sort)
    from i rd Inr storagePath_of_item [of item] show ?thesis by auto
  qed
qed

theorem listUploads_storagePath_witness:
  "fst (listUploadsForEvent demo_local calm ''ab12cd''
          (demo_world\<lparr>db_file := Json (JsonObject (Array [demo_event]) (Array [legacy_item]))\<rparr>))
     = Inr [of_item legacy_item]
   \<and> storagePath (of_item legacy_item) = ''16-k0.jpg''"
proof -
  let ?w = "demo_world\<lparr>db_file := Json (JsonObject (Array [demo_event]) (Array [legacy_item]))\<rparr>"
  have l: "fst (listUploadsForEvent demo_local calm ''ab12cd'' ?w) = Inr [of_item legacy_item]"
    by (simp add: listUploadsForEvent_def readLocalDb_def parseLocalDb_def demo_local_def js_sort_def
        legacy_item_def)
  have r: "fst (readLocalDb calm ?w) = Inr \<lparr>events = [demo_event], uploads = [legacy_item]\<rparr>"
    by (simp add: readLocalDb_def parseLocalDb_def)
  have p: "\<not> present (item_storagePath legacy_item)" "present (item_storedName legacy_item)"
    "the (item_storedName legacy_item) = ''16-k0.jpg''"
    by (simp_all add: present_def legacy_item_def)
  show ?thesis
    using listUploads_storagePath [of demo_local calm "''ab12cd''" ?w "[of_item legacy_item]" "of_item legacy_item"]
      l r p
    by (auto simp: demo_local_def)
qed

section \<open>Properties of the archive export\<close>

lemma appendLocal_gen:
  "appendLocalUploadsToArchive nfkd cfg w eid us index archive =
     archive @ map (\<lambda>(i, u). (buildArchiveEntryName nfkd u i, LocalFile (local_path cfg eid u)))
                 (filter (\<lambda>(i, u). existsSync w (local_path cfg eid u)) (enumerate index us))"
  by (induction us arbitrary: index archive) (simp_all add: local_path_def Let_def)

lemma length_filter_enumerate:
  "length (filter (\<lambda>(i, u). P u) (enumerate n us)) = length (filter P us)"
  by (induction us arbitrary: n) simp_all

lemma length_filter_complement:
  "length (filter P us) = length us - length (filter (\<lambda>u. \<not> P u) us)"
  using sum_length_filter_compl [of P us] by simp

lemma appendSupabase_ok:
  "\<forall>u \<in> set us. fetchable env u \<Longrightarrow>
   \<exists>entries. appendSupabaseUploadsToArchive nfkd env us index archive = (None, archive @ entries)
     \<and> map fst entries = map (\<lambda>(i, u). buildArchiveEntryName nfkd u i) (enumerate index us)"
proof (induction us arbitrary: index archive)
  case Nil
  then show ?case by simp
next
  case (Cons u us)
  obtain error url where c: "createSignedUrl env (storagePath u) = (error, url)"
    by (cases "createSignedUrl env (storagePath u)")
  from Cons.prems have f: "fetchable env u" by simp
  with c have e: "error = None" "or_null url \<noteq> []" by (simp_all add: fetchable_def)
  from f c e have "fetch env (or_null url) = Inr (True, True)"
    by (auto simp: fetchable_def split: sum.splits)
  moreover from Cons.prems have "\<forall>u \<in> set us. fetchable env u" by simp
  from Cons.IH [OF this, of "index + 1" "archive @ [(buildArchiveEntryName nfkd u index, RemoteBody (or_null url))]"]
  obtain entries where
    "appendSupabaseUploadsToArchive nfkd env us (index + 1)
       (archive @ [(buildArchiveEntryName nfkd u index, RemoteBody (or_null url))])
     = (None, (archive @ [(buildArchiveEntryName nfkd u index, RemoteBody (or_null url))]) @ entries)"
    "map fst entries = map (\<lambda>(i, u). buildArchiveEntryName nfkd u i) (enumerate (index + 1) us)"
    by blast
  ultimately show ?case using c e
    by (intro exI [of _ "(buildArchiveEntryName nfkd u index, RemoteBody (or_null url)) # entries"]) simp
qed

lemma appendSupabase_abort:
  "\<exists>u \<in> set us. \<not> fetchable env u \<Longrightarrow>
   fst (appendSupabaseUploadsToArchive nfkd env us index archive) \<noteq> None"
proof (induction us arbitrary: index archive)
  case Nil
  then show ?case by simp
next
  case (Cons u us)
  obtain error url where c: "createSignedUrl env (storagePath u) = (error, url)"
    by (cases "createSignedUrl env (storagePath u)")
  show ?case
  proof (cases "fetchable env u")
    case True
    with c have e: "error = None" "or_null url \<noteq> []" by (simp_all add: fetchable_def)
    from True c e have "fetch env (or_null url) = Inr (True, True)"
      by (auto simp: fetchable_def split: sum.splits)
    moreover from True Cons.prems have "\<exists>u \<in> set us. \<not> fetchable env u" by auto
    ultimately show ?thesis using c e Cons.IH by simp
  next
    case False
    with c show ?thesis
      by (auto simp: fetchable_def split: sum.splits option.splits)
  qed
qed

text \<open>
  C3, as amended. The local export skips exactly the records whose path does not exist,
  as a file or as a directory, and appends the others, in order and under the names of
  their own indices, so it has as many entries as there are records less those whose
  path does not exist. The remote export ends with an error as soon as one record has
  no signed URL or cannot be fetched; when every record can be fetched it has one entry
  for each record, under the names of their indices.
\<close>

theorem export_failure_policy:
  "appendLocalUploadsToArchive nfkd cfg w eid us 0 [] =
     map (\<lambda>(i, u). (buildArchiveEntryName nfkd u i, LocalFile (local_path cfg eid u)))
       (filter (\<lambda>(i, u). existsSync w (local_path cfg eid u)) (enumerate 0 us))
   \<and> length (appendLocalUploadsToArchive nfkd cfg w eid us 0 []) =
       length us - length (filter (\<lambda>u. \<not> existsSync w (local_path cfg eid u)) us)
   \<and> ((\<forall>u \<in> set us. fetchable env u) \<longrightarrow>
        fst (appendSupabaseUploadsToArchive nfkd env us 0 []) = None
        \<and> length (snd (appendSupabaseUploadsToArchive nfkd env us 0 [])) = length us
        \<and> map fst (snd (appendSupabaseUploadsToArchive nfkd env us 0 []))
            = map (\<lambda>(i, u). buildArchiveEntryName nfkd u i) (enumerate 0 us))
   \<and> ((\<exists>u \<in> set us. \<not> fetchable env u) \<longrightarrow>
        fst (appendSupabaseUploadsToArchive nfkd env us 0 []) \<noteq> None)"
proof -
  have l: "length (appendLocalUploadsToArchive nfkd cfg w eid us 0 []) =
       length us - length (filter (\<lambda>u. \<not> existsSync w (local_path cfg eid u)) us)"
    using length_filter_enumerate [of "\<lambda>u. existsSync w (local_path cfg eid u)" 0 us]
      length_filter_complement [of "\<lambda>u. existsSync w (local_path cfg eid u)" us]
    by (simp add: appendLocal_gen)
  have r: "fst (appendSupabaseUploadsToArchive nfkd env us 0 []) = None
        \<and> length (snd (appendSupabaseUploadsToArchive nfkd env us 0 [])) = length us
        \<and> map fst (snd (appendSupabaseUploadsToArchive nfkd env us 0 []))
            = map (\<lambda>(i, u). buildArchiveEntryName nfkd u i) (enumerate 0 us)"
    if a: "\<forall>u \<in> set us. fetchable env u"
  proof -
    obtain entries where e: "appendSupabaseUploadsToArchive nfkd env us 0 [] = (None, [] @ entries)"
      "map fst entries = map (\<lambda>(i, u). buildArchiveEntryName nfkd u i) (enumerate 0 us)"
      using appendSupabase_ok [OF a, of nfkd 0 "[]"] by blast
    from e(2) have "length entries = length us"
      using length_map [of fst entries] by simp
    with e show ?thesis by simp
  qed
  show ?thesis
    using l r appendSupabase_abort [of us env nfkd 0 "[]"] by (simp add: appendLocal_gen)
qed

lemma demo_paths:
  "local_path demo_local ''ab12cd'' first_upload = ''/srv/app/uploads/ab12cd/17-k1.jpg''"
  "local_path demo_local ''ab12cd'' second_upload = ''/srv/app/uploads/ab12cd/18-k2.jpg''"
  "local_path demo_local ''ab12cd'' (of_item bare_item) = ''/srv/app/uploads/ab12cd''"
  by (simp_all add: local_path_def demo_local_def first_upload_def second_upload_def path_join_def
      normalize_def normalize_segments_def normalize_step_def of_item_def bare_item_def or_field_def)

lemma demo_names:
  "buildArchiveEntryName id first_upload 0 = ''001-photo.jpg''"
  "buildArchiveEntryName id second_upload (Suc 0) = ''002-photo.jpg''"
  "buildArchiveEntryName id (of_item bare_item) 0 = ''001-eski.jpg''"
  by code_simp+

theorem export_failure_policy_witness:
  "appendLocalUploadsToArchive id demo_local
       (demo_world\<lparr>disk := [''/srv/app/uploads/ab12cd/18-k2.jpg'']\<rparr>) ''ab12cd''
       [first_upload, second_upload] 0 []
     = [(''002-photo.jpg'', LocalFile ''/srv/app/uploads/ab12cd/18-k2.jpg'')]
   \<and> fst (appendSupabaseUploadsToArchive id calm [first_upload, second_upload] 0 []) = None
   \<and> map fst (snd (appendSupabaseUploadsToArchive id calm [first_upload, second_upload] 0 []))
       = [''001-photo.jpg'', ''002-photo.jpg'']
   \<and> fst (appendSupabaseUploadsToArchive id offline [first_upload, second_upload] 0 []) \<noteq> None"
proof -
  let ?w = "demo_world\<lparr>disk := [''/srv/app/uploads/ab12cd/18-k2.jpg'']\<rparr>"
  let ?us = "[first_upload, second_upload]"
  have f: "fetchable calm u" "\<not> fetchable offline u" for u
    by (simp_all add: fetchable_def calm_def offline_def or_null_def)
  have a: "\<forall>u \<in> set ?us. fetchable calm u" and b: "\<exists>u \<in> set ?us. \<not> fetchable offline u"
    by (auto simp: f)
  have x: "existsSync ?w p = (p = ''/srv/app/uploads/ab12cd/18-k2.jpg'')" for p
    by (auto simp: existsSync_def demo_world_def)
  note t1 = export_failure_policy [of id demo_local ?w "''ab12cd''" ?us calm]
  note t2 = export_failure_policy [of id demo_local ?w "''ab12cd''" ?us offline]
  from t1 have "appendLocalUploadsToArchive id demo_local ?w ''ab12cd'' ?us 0 [] =
     map (\<lambda>(i, u). (buildArchiveEntryName id u i, LocalFile (local_path demo_local ''ab12cd'' u)))
       (filter (\<lambda>(i, u). existsSync ?w (local_path demo_local ''ab12cd'' u)) (enumerate 0 ?us))"
    by blast
  then have l: "appendLocalUploadsToArchive id demo_local ?w ''ab12cd'' ?us 0 []
      = [(''002-photo.jpg'', LocalFile ''/srv/app/uploads/ab12cd/18-k2.jpg'')]"
    by (simp add: x demo_paths demo_names del: appendLocalUploadsToArchive.simps)
  from t1 a have r: "fst (appendSupabaseUploadsToArchive id calm ?us 0 []) = None"
      "map fst (snd (appendSupabaseUploadsToArchive id calm ?us 0 []))
         = map (\<lambda>(i, u). buildArchiveEntryName id u i) (enumerate 0 ?us)"
    by blast+
  from r(2) have n: "map fst (snd (appendSupabaseUploadsToArchive id calm ?us 0 []))
       = [''001-photo.jpg'', ''002-photo.jpg'']"
    by (simp add: demo_names del: appendSupabaseUploadsToArchive.simps)
  from t2 b have y: "fst (appendSupabaseUploadsToArchive id offline ?us 0 []) \<noteq> None"
    by blast
  from l r(1) n y show ?thesis
    by (simp del: appendLocalUploadsToArchive.simps appendSupabaseUploadsToArchive.simps)
qed

text \<open>
  The stored record \<open>bare_item\<close> has neither \<open>storagePath\<close> nor \<open>storedName\<close>, so its
  storage path is the empty string and its path is the directory of the event. In
  \<open>legacy_world\<close> that directory exists and no file does: the record has no file, and
  the export has an entry for it.
\<close>

theorem export_failure_policy_counterexample:
  "fst (listUploadsForEvent demo_local calm ''ab12cd'' legacy_world) = Inr [of_item bare_item]
   \<and> storagePath (of_item bare_item) = []
   \<and> disk legacy_world = []
   \<and> appendLocalUploadsToArchive id demo_local legacy_world ''ab12cd'' [of_item bare_item] 0 []
       = [(''001-eski.jpg'', LocalFile ''/srv/app/uploads/ab12cd'')]"
proof -
  have l: "fst (listUploadsForEvent demo_local calm ''ab12cd'' legacy_world) = Inr [of_item bare_item]"
    by (simp add: listUploadsForEvent_def readLocalDb_def parseLocalDb_def demo_local_def js_sort_def
        legacy_world_def bare_item_def)
  have s: "storagePath (of_item bare_item) = []"
    by (simp add: of_item_def bare_item_def or_field_def)
  have d: "disk legacy_world = []" by (simp add: legacy_world_def demo_world_def)
  have x: "existsSync legacy_world ''/srv/app/uploads/ab12cd''"
    by (simp add: existsSync_def legacy_world_def)
  have "appendLocalUploadsToArchive id demo_local legacy_world ''ab12cd'' [of_item bare_item] 0 []
       = [(''001-eski.jpg'', LocalFile ''/srv/app/uploads/ab12cd'')]"
    by (simp add: appendLocal_gen x demo_paths demo_names del: appendLocalUploadsToArchive.simps)
  with l s d show ?thesis by simp
qed

text \<open>
  The directory of an event exists as soon as the disk engine has handled one file for
  the event.
\<close>

lemma upload_makes_event_directory:
  "dirs (snd (engine_store demo_local calm ''ab12cd'' photo demo_world)) = [''/srv/app/uploads/ab12cd'']"
  by (simp add: engine_store_def demo_local_def calm_def demo_world_def Let_def path_join_def
      normalize_def normalize_segments_def normalize_step_def)

section \<open>Properties of the upload route\<close>

lemma fileFilter_valid: "fileFilter f = None \<longleftrightarrow> valid_type f"
  by (simp add: fileFilter_def valid_type_def Let_def)

lemma multer_array_ok:
  assumes "list_all (\<lambda>f. valid_type f \<and> part_size f \<le> MAX_FILE_SIZE_MB cfg * 1024 * 1024) files"
    and "length stored + length files \<le> MAX_FILES_PER_REQUEST cfg"
    and "USING_SUPABASE cfg \<or> (\<forall>p. disk_write_error env p = None)"
  shows "multer_array cfg env eid files stored w = (None, stored @ files, after_store cfg eid files w)"
  using assms
proof (induction files arbitrary: stored w)
  case Nil
  then show ?case by (simp add: after_store_def)
next
  case (Cons f files)
  from Cons.prems have v: "fileFilter f = None" and s: "\<not> MAX_FILE_SIZE_MB cfg * 1024 * 1024 < part_size f"
    and n: "\<not> MAX_FILES_PER_REQUEST cfg \<le> length stored"
    by (auto simp: fileFilter_valid)
  define w1 where "w1 = after_store cfg eid [f] w"
  have e: "engine_store cfg env eid f w = (None, w1)"
    using Cons.prems(3) by (auto simp: engine_store_def after_store_def w1_def Let_def)
  have "multer_array cfg env eid files (stored @ [f]) w1 = (None, (stored @ [f]) @ files, after_store cfg eid files w1)"
    using Cons.prems by (intro Cons.IH) auto
  moreover have "after_store cfg eid files w1 = after_store cfg eid (f # files) w"
    by (simp add: after_store_def w1_def List.insert_def)
  ultimately show ?case using v s n e by simp
qed

lemma findEventById_found:
  assumes "fst (findEventById cfg env eid w) = Inr (Some ev)"
  shows "findEventById cfg env eid w = (Inr (Some ev), w)
     \<and> (USING_SUPABASE cfg \<longrightarrow> select_error env = None)
     \<and> (\<not> USING_SUPABASE cfg \<longrightarrow> (\<exists>db. parseLocalDb (db_file w) = Inr db))"
proof (cases "USING_SUPABASE cfg")
  case True
  with assms show ?thesis
    by (auto simp: findEventById_def split: option.splits)
next
  case False
  show ?thesis
  proof (cases "parseLocalDb (db_file w)")
    case (Inl e)
    with False assms show ?thesis
      by (cases "db_write_error env") (simp_all add: findEventById_def readLocalDb_def writeLocalDb_def)
  next
    case (Inr db)
    with False assms show ?thesis
      by (auto simp: findEventById_def readLocalDb_def)
  qed
qed

lemma db_file_after_store: "db_file (after_store cfg eid files w) = db_file w"
  by (simp add: after_store_def)

lemma of_item_to_item: "storagePath r \<noteq> [] \<Longrightarrow> of_item (to_item r) = r"
  by (simp add: of_item_def to_item_def or_field_def)

lemma of_row_to_row: "of_row (to_row r) = r"
  by (simp add: of_row_def to_row_def or_null_def)

lemma upload_files_ok:
  assumes "\<forall>k. upload_error env k = None"
    and "distinct (map (\<lambda>f. supabase_storagePath eid (drawn_now f) (drawn_key f) (originalname f)) files)"
    and "set (map (\<lambda>f. supabase_storagePath eid (drawn_now f) (drawn_key f) (originalname f)) files)
           \<inter> set (bucket w) = {}"
  shows "upload_files env eid guest uploaded files created records w =
     (None,
      created @ map (\<lambda>f. supabase_storagePath eid (drawn_now f) (drawn_key f) (originalname f)) files,
      records @ map (\<lambda>f. new_record eid guest uploaded f
                            (supabase_storagePath eid (drawn_now f) (drawn_key f) (originalname f))) files,
      w\<lparr>calls := calls w @ map (\<lambda>f. BucketUpload (supabase_storagePath eid (drawn_now f) (drawn_key f) (originalname f))) files,
        bucket := bucket w @ map (\<lambda>f. supabase_storagePath eid (drawn_now f) (drawn_key f) (originalname f)) files\<rparr>)"
  using assms
proof (induction files arbitrary: created records w)
  case Nil
  then show ?case by simp
next
  case (Cons f files)
  let ?k = "supabase_storagePath eid (drawn_now f) (drawn_key f) (originalname f)"
  define w1 where "w1 = w\<lparr>calls := calls w @ [BucketUpload ?k], bucket := bucket w @ [?k]\<rparr>"
  have u: "storage_upload env ?k w = (None, w1)"
    using Cons.prems by (simp add: storage_upload_def w1_def Let_def)
  have "set (map (\<lambda>f. supabase_storagePath eid (drawn_now f) (drawn_key f) (originalname f)) files)
           \<inter> set (bucket w1) = {}"
    using Cons.prems(2,3) by (auto simp: w1_def)
  with Cons.prems have "upload_files env eid guest uploaded files (created @ [?k])
      (records @ [new_record eid guest uploaded f ?k]) w1 =
     (None,
      (created @ [?k]) @ map (\<lambda>f. supabase_storagePath eid (drawn_now f) (drawn_key f) (originalname f)) files,
      (records @ [new_record eid guest uploaded f ?k]) @ map (\<lambda>f. new_record eid guest uploaded f
                            (supabase_storagePath eid (drawn_now f) (drawn_key f) (originalname f))) files,
      w1\<lparr>calls := calls w1 @ map (\<lambda>f. BucketUpload (supabase_storagePath eid (drawn_now f) (drawn_key f) (originalname f))) files,
        bucket := bucket w1 @ map (\<lambda>f. supabase_storagePath eid (drawn_now f) (drawn_key f) (originalname f)) files\<rparr>)"
    by (intro Cons.IH) auto
  then show ?case using u by (simp add: w1_def Let_def)
qed

lemma storage_filename_not_Nil: "storage_filename now rnd name \<noteq> []"
proof -
  have "String_nat now \<noteq> []" by (subst String_nat.simps) simp
  then show ?thesis by (simp add: storage_filename_def Let_def)
qed

lemma batch_records_local:
  "\<not> USING_SUPABASE cfg \<Longrightarrow>
   local_records (req_eventId req) (sanitizeText (req_guestName req) 80) (req_time req) (req_files req)
     = batch_records cfg req"
  by (simp add: local_records_def batch_records_def storage_key_def)

lemma batch_records_remote:
  "USING_SUPABASE cfg \<Longrightarrow>
   map (\<lambda>f. new_record (req_eventId req) (sanitizeText (req_guestName req) 80) (req_time req) f
          (supabase_storagePath (req_eventId req) (drawn_now f) (drawn_key f) (originalname f)))
     (req_files req) = batch_records cfg req"
  by (simp add: batch_records_def storage_key_def)

lemma batch_records_eventId: "\<forall>r \<in> set (batch_records cfg req). eventId r = req_eventId req"
  by (auto simp: batch_records_def new_record_def)

lemma batch_records_storagePath:
  "\<not> USING_SUPABASE cfg \<Longrightarrow> \<forall>r \<in> set (batch_records cfg req). storagePath r \<noteq> []"
  by (auto simp: batch_records_def new_record_def storage_key_def storage_filename_not_Nil)

lemma length_batch_records: "length (batch_records cfg req) = length (req_files req)"
  by (simp add: batch_records_def)

lemma upload_route_local:
  assumes l: "\<not> USING_SUPABASE cfg" and v: "valid_batch cfg (req_files req)"
    and ev: "fst (findEventById cfg env (req_eventId req) w) = Inr (Some ev)"
    and d: "\<forall>p. disk_write_error env p = None"
  shows "\<exists>db. parseLocalDb (db_file w) = Inr db \<and>
     upload_route cfg env req w =
       (case writeLocalDb env (db\<lparr>uploads := uploads db @ map to_item (batch_records cfg req)\<rparr>)
               (after_store cfg (req_eventId req) (req_files req) w) of
          (Some error, w2) \<Rightarrow> (\<lparr>status = 500, body = ErrorBody (error_message error)\<rparr>, w2)
        | (None, w2) \<Rightarrow> (\<lparr>status = 201, body = UploadedBody (length (req_files req))\<rparr>, w2))"
proof -
  let ?eid = "req_eventId req" and ?files = "req_files req"
  let ?w1 = "after_store cfg ?eid ?files w"
  from findEventById_found [OF ev] l obtain db where
    f: "findEventById cfg env ?eid w = (Inr (Some ev), w)" and p: "parseLocalDb (db_file w) = Inr db"
    by auto
  have m: "multer_array cfg env ?eid ?files [] w = (None, ?files, ?w1)"
    using multer_array_ok [of cfg ?files "[]" env ?eid w] v d by (simp add: valid_batch_def)
  have ne: "?files \<noteq> []" "batch_records cfg req \<noteq> []"
    using v by (auto simp: valid_batch_def batch_records_def)
  have r: "readLocalDb env ?w1 = (Inr db, ?w1)"
    by (rule readLocalDb_parsed) (simp add: db_file_after_store p)
  have i: "insertUploadRecords cfg env (batch_records cfg req) ?w1 =
      writeLocalDb env (db\<lparr>uploads := uploads db @ map to_item (batch_records cfg req)\<rparr>) ?w1"
    using l ne r by (simp add: insertUploadRecords_def)
  have "upload_callback cfg env req None ?files ?w1 =
       (case writeLocalDb env (db\<lparr>uploads := uploads db @ map to_item (batch_records cfg req)\<rparr>) ?w1 of
          (Some error, w2) \<Rightarrow> (\<lparr>status = 500, body = ErrorBody (error_message error)\<rparr>, w2)
        | (None, w2) \<Rightarrow> (\<lparr>status = 201, body = UploadedBody (length ?files)\<rparr>, w2))"
    using l ne i batch_records_local [OF l, of req]
    by (simp add: upload_callback_def upload_failed_def Let_def split: prod.splits option.splits)
  with f m p show ?thesis by (simp add: upload_route_def)
qed

lemma upload_route_remote:
  assumes s: "USING_SUPABASE cfg" and v: "valid_batch cfg (req_files req)"
    and ev: "fst (findEventById cfg env (req_eventId req) w) = Inr (Some ev)"
    and u: "\<forall>k. upload_error env k = None"
    and fresh: "distinct (map (storage_key cfg (req_eventId req)) (req_files req))"
       "set (map (storage_key cfg (req_eventId req)) (req_files req)) \<inter> set (bucket w) = {}"
  shows "upload_route cfg env req w =
     (let keys = map (storage_key cfg (req_eventId req)) (req_files req);
          w1 = w\<lparr>calls := calls w @ map BucketUpload keys, bucket := bucket w @ keys\<rparr>
      in case insert_error env of
           Some error \<Rightarrow> (\<lparr>status = 500, body = ErrorBody (error_message error)\<rparr>,
                          remove_all_settled env keys w1)
         | None \<Rightarrow> (\<lparr>status = 201, body = UploadedBody (length (req_files req))\<rparr>,
                     w1\<lparr>uploads_table := uploads_table w1 @ map to_row (batch_records cfg req)\<rparr>))"
proof -
  let ?eid = "req_eventId req" and ?files = "req_files req"
  let ?keys = "map (storage_key cfg ?eid) ?files"
  let ?w1 = "w\<lparr>calls := calls w @ map BucketUpload ?keys, bucket := bucket w @ ?keys\<rparr>"
  have k: "?keys = map (\<lambda>f. supabase_storagePath ?eid (drawn_now f) (drawn_key f) (originalname f)) ?files"
    using s by (simp add: storage_key_def)
  from findEventById_found [OF ev] have
    f: "findEventById cfg env ?eid w = (Inr (Some ev), w)" by simp
  have m: "multer_array cfg env ?eid ?files [] w = (None, ?files, w)"
    using multer_array_ok [of cfg ?files "[]" env ?eid w] v s by (simp add: valid_batch_def after_store_def)
  have ne: "?files \<noteq> []" "batch_records cfg req \<noteq> []" "?keys \<noteq> []"
    using v by (auto simp: valid_batch_def batch_records_def)
  have up: "upload_files env ?eid (sanitizeText (req_guestName req) 80) (req_time req) ?files [] [] w
      = (None, ?keys, batch_records cfg req, ?w1)"
    using upload_files_ok [OF u, of ?eid ?files w "sanitizeText (req_guestName req) 80" "req_time req" "[]" "[]"]
      fresh batch_records_remote [OF s, of req]
    by (simp add: k comp_def)
  have i: "insertUploadRecords cfg env (batch_records cfg req) ?w1 =
      (case insert_error env of Some error \<Rightarrow> (Some error, ?w1)
       | None \<Rightarrow> (None, ?w1\<lparr>uploads_table := uploads_table ?w1 @ map to_row (batch_records cfg req)\<rparr>))"
    using s ne by (cases "insert_error env") (simp_all add: insertUploadRecords_def Let_def)
  have "upload_callback cfg env req None ?files w =
     (case insert_error env of
           Some error \<Rightarrow> (\<lparr>status = 500, body = ErrorBody (error_message error)\<rparr>,
                          remove_all_settled env ?keys ?w1)
         | None \<Rightarrow> (\<lparr>status = 201, body = UploadedBody (length ?files)\<rparr>,
                     ?w1\<lparr>uploads_table := uploads_table ?w1 @ map to_row (batch_records cfg req)\<rparr>))"
    using s ne up i
    by (cases "insert_error env") (simp_all add: upload_callback_def upload_failed_def Let_def)
  with f m show ?thesis by (simp add: upload_route_def Let_def)
qed

lemma removeAll_filter: "removeAll k xs = filter (\<lambda>x. x \<noteq> k) xs"
  by (induction xs) auto

lemma remove_all_settled_result:
  "remove_all_settled env keys w =
     w\<lparr>calls := calls w @ map BucketRemove keys,
       bucket := filter (\<lambda>b. \<not> (b \<in> set keys \<and> remove_error env b = None)) (bucket w)\<rparr>"
proof (induction keys arbitrary: w)
  case Nil
  then show ?case by simp
next
  case (Cons k keys)
  show ?case
  proof (cases "remove_error env k")
    case None
    have "filter (\<lambda>b. \<not> (b \<in> set keys \<and> remove_error env b = None)) (removeAll k (bucket w))
        = filter (\<lambda>b. \<not> ((b = k \<or> b \<in> set keys) \<and> remove_error env b = None)) (bucket w)"
      using None by (auto simp: removeAll_filter intro: filter_cong)
    with None show ?thesis by (simp add: Cons.IH storage_remove_def Let_def)
  next
    case (Some e)
    have "filter (\<lambda>b. \<not> (b \<in> set keys \<and> remove_error env b = None)) (bucket w)
        = filter (\<lambda>b. \<not> ((b = k \<or> b \<in> set keys) \<and> remove_error env b = None)) (bucket w)"
      using Some by (auto intro: filter_cong)
    with Some show ?thesis by (simp add: Cons.IH storage_remove_def Let_def)
  qed
qed

lemma found_local: "fst (findEventById demo_local env ''ab12cd'' demo_world) = Inr (Some demo_event)"
  by (simp add: demo_defs route_defs)

lemma found_remote:
  "select_error env = None \<Longrightarrow>
   fst (findEventById demo_remote env ''ab12cd'' demo_world) = Inr (Some demo_event)"
  by (simp add: demo_defs route_defs or_null_def)

lemma valid_photo: "valid_batch demo_local [photo] \<and> valid_batch demo_remote [photo]"
  by (simp add: valid_batch_def valid_type_def demo_defs startsWith_def)

text \<open>
  C7. For an existing event and a batch of one to \<open>MAX_FILES_PER_REQUEST\<close> files, all
  of an image or video type and within the size limit, when no storage or metadata
  operation fails (and, remotely, the generated keys are new), the route answers 201
  with \<open>uploadedCount\<close> equal to the number of files, and \<open>listUploadsForEvent\<close> then
  returns the records it returned before together with the records of the batch, one
  for each file.
\<close>

theorem ingest_then_list:
  assumes v: "valid_batch cfg (req_files req)"
    and ev: "fst (findEventById cfg env (req_eventId req) w) = Inr (Some ev)"
    and ok: "no_failures env"
    and fresh: "USING_SUPABASE cfg \<longrightarrow>
        distinct (map (storage_key cfg (req_eventId req)) (req_files req))
        \<and> set (map (storage_key cfg (req_eventId req)) (req_files req)) \<inter> set (bucket w) = {}"
  shows "fst (upload_route cfg env req w) = \<lparr>status = 201, body = UploadedBody (length (req_files req))\<rparr>
     \<and> (\<exists>before after.
           fst (listUploadsForEvent cfg env (req_eventId req) w) = Inr before
         \<and> fst (listUploadsForEvent cfg env (req_eventId req) (snd (upload_route cfg env req w))) = Inr after
         \<and> mset after = mset before + mset (batch_records cfg req)
         \<and> length after = length before + length (req_files req))"
proof (cases "USING_SUPABASE cfg")
  case True
  let ?eid = "req_eventId req"
  let ?keys = "map (storage_key cfg ?eid) (req_files req)"
  let ?w1 = "w\<lparr>calls := calls w @ map BucketUpload ?keys, bucket := bucket w @ ?keys\<rparr>"
  let ?w2 = "?w1\<lparr>uploads_table := uploads_table ?w1 @ map to_row (batch_records cfg req)\<rparr>"
  let ?cmp = "\<lambda>a b. timestamp_compare env (uploaded_at b) (uploaded_at a)"
  from ok have e: "insert_error env = None" "select_error env = None" "\<forall>k. upload_error env k = None"
    by (simp_all add: no_failures_def)
  have r: "upload_route cfg env req w = (\<lparr>status = 201, body = UploadedBody (length (req_files req))\<rparr>, ?w2)"
    using upload_route_remote [OF True v ev e(3)] fresh True e(1) by (simp add: Let_def)
  let ?before = "map of_row (js_sort ?cmp (filter (\<lambda>r. event_id r = ?eid) (uploads_table w)))"
  let ?after = "map of_row (js_sort ?cmp (filter (\<lambda>r. event_id r = ?eid)
                   (uploads_table w @ map to_row (batch_records cfg req))))"
  have b: "fst (listUploadsForEvent cfg env ?eid w) = Inr ?before"
    using True e(2) by (simp add: listUploadsForEvent_def)
  have a: "fst (listUploadsForEvent cfg env ?eid ?w2) = Inr ?after"
    using True e(2) by (simp add: listUploadsForEvent_def)
  have f: "filter (\<lambda>r. event_id r = ?eid) (map to_row (batch_records cfg req)) = map to_row (batch_records cfg req)"
    using batch_records_eventId [of cfg req] by (auto simp: filter_id_conv to_row_def)
  have o: "map of_row (map to_row (batch_records cfg req)) = batch_records cfg req"
    by (simp add: map_idI of_row_to_row)
  have "mset ?after = image_mset of_row (mset (filter (\<lambda>r. event_id r = ?eid) (uploads_table w)))
                      + image_mset of_row (mset (map to_row (batch_records cfg req)))"
    by (simp only: mset_map mset_js_sort filter_append f mset_append image_mset_union)
  also have "image_mset of_row (mset (map to_row (batch_records cfg req)))
       = mset (map of_row (map to_row (batch_records cfg req)))"
    by (simp only: mset_map)
  finally have m: "mset ?after = mset ?before + mset (batch_records cfg req)"
    by (simp only: o mset_map mset_js_sort)
  from m have "size (mset ?after) = size (mset ?before + mset (batch_records cfg req))" by simp
  then have "length ?after = length ?before + length (req_files req)"
    by (simp only: size_mset size_union length_batch_records)
  with r a b m show ?thesis by (intro conjI exI [of _ ?before] exI [of _ ?after]) simp_all
next
  case False
  let ?eid = "req_eventId req"
  let ?cmp = "\<lambda>a b. localeCompare env (uploadedAt b) (uploadedAt a)"
  from ok have e: "db_write_error env = None" "\<forall>p. disk_write_error env p = None"
    by (simp_all add: no_failures_def)
  from upload_route_local [OF False v ev e(2)] obtain db where
    p: "parseLocalDb (db_file w) = Inr db" and
    r0: "upload_route cfg env req w =
       (case writeLocalDb env (db\<lparr>uploads := uploads db @ map to_item (batch_records cfg req)\<rparr>)
               (after_store cfg ?eid (req_files req) w) of
          (Some error, w2) \<Rightarrow> (\<lparr>status = 500, body = ErrorBody (error_message error)\<rparr>, w2)
        | (None, w2) \<Rightarrow> (\<lparr>status = 201, body = UploadedBody (length (req_files req))\<rparr>, w2))"
    by blast
  let ?w2 = "(after_store cfg ?eid (req_files req) w)
       \<lparr>db_file := Json (JsonObject (Array (events db)) (Array (uploads db @ map to_item (batch_records cfg req))))\<rparr>"
  have r: "upload_route cfg env req w = (\<lparr>status = 201, body = UploadedBody (length (req_files req))\<rparr>, ?w2)"
    using r0 e(1) by (simp add: writeLocalDb_def)
  let ?before = "js_sort ?cmp (map of_item (filter (\<lambda>item. item_eventId item = ?eid) (uploads db)))"
  let ?after = "js_sort ?cmp (map of_item (filter (\<lambda>item. item_eventId item = ?eid)
                   (uploads db @ map to_item (batch_records cfg req))))"
  have b: "fst (listUploadsForEvent cfg env ?eid w) = Inr ?before"
    using False readLocalDb_parsed [OF p, of env] by (simp add: listUploadsForEvent_def)
  have "parseLocalDb (db_file ?w2) = Inr \<lparr>events = events db, uploads = uploads db @ map to_item (batch_records cfg req)\<rparr>"
    by (simp add: parseLocalDb_written)
  from readLocalDb_parsed [OF this, of env]
  have a: "fst (listUploadsForEvent cfg env ?eid ?w2) = Inr ?after"
    using False by (simp add: listUploadsForEvent_def)
  have f: "filter (\<lambda>item. item_eventId item = ?eid) (map to_item (batch_records cfg req)) = map to_item (batch_records cfg req)"
    using batch_records_eventId [of cfg req] by (auto simp: filter_id_conv to_item_def)
  have o: "map of_item (map to_item (batch_records cfg req)) = batch_records cfg req"
    using batch_records_storagePath [OF False, of req] by (simp add: map_idI of_item_to_item)
  have "mset ?after = image_mset of_item (mset (filter (\<lambda>item. item_eventId item = ?eid) (uploads db)))
                      + image_mset of_item (mset (map to_item (batch_records cfg req)))"
    by (simp only: mset_map mset_js_sort filter_append f mset_append image_mset_union)
  also have "image_mset of_item (mset (map to_item (batch_records cfg req)))
       = mset (map of_item (map to_item (batch_records cfg req)))"
    by (simp only: mset_map)
  finally have m: "mset ?after = mset ?before + mset (batch_records cfg req)"
    by (simp only: o mset_map mset_js_sort)
  from m have "size (mset ?after) = size (mset ?before + mset (batch_records cfg req))" by simp
  then have "length ?after = length ?before + length (req_files req)"
    by (simp only: size_mset size_union length_batch_records)
  with r a b m show ?thesis by (intro conjI exI [of _ ?before] exI [of _ ?after]) simp_all
qed

theorem ingest_then_list_witness:
  "fst (upload_route demo_local calm (demo_request [photo]) demo_world)
     = \<lparr>status = 201, body = UploadedBody 1\<rparr>
   \<and> fst (upload_route demo_remote calm (demo_request [photo]) demo_world)
     = \<lparr>status = 201, body = UploadedBody 1\<rparr>
   \<and> fst (listUploadsForEvent demo_remote calm ''ab12cd''
            (snd (upload_route demo_remote calm (demo_request [photo]) demo_world)))
     = Inr (batch_records demo_remote (demo_request [photo]))"
proof -
  have n: "no_failures calm" by (simp add: no_failures_def calm_def)
  have e: "req_eventId (demo_request [photo]) = ''ab12cd''" "req_files (demo_request [photo]) = [photo]"
    by (simp_all add: demo_request_def)
  have b: "fst (listUploadsForEvent demo_remote calm ''ab12cd'' demo_world) = Inr []"
    by (simp add: listUploadsForEvent_def demo_defs js_sort_def)
  have 1: "fst (upload_route demo_local calm (demo_request [photo]) demo_world)
     = \<lparr>status = 201, body = UploadedBody 1\<rparr>"
    using ingest_then_list [of demo_local "demo_request [photo]" calm demo_world demo_event]
      n valid_photo found_local [of calm]
    by (simp add: e) (simp add: demo_local_def)
  have 2: "fst (upload_route demo_remote calm (demo_request [photo]) demo_world)
     = \<lparr>status = 201, body = UploadedBody 1\<rparr>
   \<and> (\<exists>before after.
           fst (listUploadsForEvent demo_remote calm ''ab12cd'' demo_world) = Inr before
         \<and> fst (listUploadsForEvent demo_remote calm ''ab12cd''
                  (snd (upload_route demo_remote calm (demo_request [photo]) demo_world))) = Inr after
         \<and> mset after = mset before + mset (batch_records demo_remote (demo_request [photo]))
         \<and> length after = length before + length [photo])"
    using ingest_then_list [of demo_remote "demo_request [photo]" calm demo_world demo_event]
      n valid_photo found_remote [of calm]
    by (simp add: e) (simp add: demo_world_def calm_def)
  then obtain after where
    a: "fst (listUploadsForEvent demo_remote calm ''ab12cd''
                  (snd (upload_route demo_remote calm (demo_request [photo]) demo_world))) = Inr after"
    and m: "mset after = mset (batch_records demo_remote (demo_request [photo]))"
    using b by auto
  have "length (batch_records demo_remote (demo_request [photo])) = 1"
    by (simp add: batch_records_def e)
  then obtain r where r: "batch_records demo_remote (demo_request [photo]) = [r]"
    by (cases "batch_records demo_remote (demo_request [photo])") auto
  from m r have "after = [r]" by simp
  with 1 2 a r show ?thesis by simp
qed

text \<open>
  C1, as amended. On the remote backend, when every file of a valid batch was uploaded
  and the insert of the upload records fails, the route answers 500 with the message of
  the insert error (a fixed message when what was thrown is not an \<open>Error\<close>), it calls
  \<open>remove\<close> on every key that it uploaded, in order, the table of uploads and the
  listing of the event are as before, and the objects of the batch that are left in the
  bucket are those whose removal failed.
\<close>

theorem commit_failure_compensation:
  assumes s: "USING_SUPABASE cfg" and v: "valid_batch cfg (req_files req)"
    and ev: "fst (findEventById cfg env (req_eventId req) w) = Inr (Some ev)"
    and u: "\<forall>k. upload_error env k = None"
    and fresh: "distinct (map (storage_key cfg (req_eventId req)) (req_files req))"
       "set (map (storage_key cfg (req_eventId req)) (req_files req)) \<inter> set (bucket w) = {}"
    and commit: "insert_error env = Some e"
  shows "fst (upload_route cfg env req w) = \<lparr>status = 500, body = ErrorBody (error_message e)\<rparr>
     \<and> calls (snd (upload_route cfg env req w)) =
         calls w @ map BucketUpload (map (storage_key cfg (req_eventId req)) (req_files req))
                 @ map BucketRemove (map (storage_key cfg (req_eventId req)) (req_files req))
     \<and> uploads_table (snd (upload_route cfg env req w)) = uploads_table w
     \<and> fst (listUploadsForEvent cfg env (req_eventId req) (snd (upload_route cfg env req w)))
         = fst (listUploadsForEvent cfg env (req_eventId req) w)
     \<and> bucket (snd (upload_route cfg env req w)) =
         bucket w @ filter (\<lambda>k. remove_error env k \<noteq> None)
                      (map (storage_key cfg (req_eventId req)) (req_files req))"
proof -
  let ?keys = "map (storage_key cfg (req_eventId req)) (req_files req)"
  let ?w1 = "w\<lparr>calls := calls w @ map BucketUpload ?keys, bucket := bucket w @ ?keys\<rparr>"
  have r: "upload_route cfg env req w =
      (\<lparr>status = 500, body = ErrorBody (error_message e)\<rparr>, remove_all_settled env ?keys ?w1)"
    using upload_route_remote [OF s v ev u fresh] commit by (simp add: Let_def)
  define W where "W = remove_all_settled env ?keys ?w1"
  have c: "calls W = calls w @ map BucketUpload ?keys @ map BucketRemove ?keys"
    and t: "uploads_table W = uploads_table w"
    and b: "bucket W = filter (\<lambda>b. \<not> (b \<in> set ?keys \<and> remove_error env b = None)) (bucket w @ ?keys)"
    unfolding W_def remove_all_settled_result by simp_all
  have b1: "filter (\<lambda>b. \<not> (b \<in> set ?keys \<and> remove_error env b = None)) (bucket w) = bucket w"
    using fresh(2) by (auto simp: filter_id_conv)
  have b2: "filter (\<lambda>b. \<not> (b \<in> set ?keys \<and> remove_error env b = None)) ?keys
      = filter (\<lambda>k. remove_error env k \<noteq> None) ?keys"
    by (auto intro: filter_cong)
  have b': "bucket W = bucket w @ filter (\<lambda>k. remove_error env k \<noteq> None) ?keys"
    unfolding b filter_append b1 b2 ..
  have l: "fst (listUploadsForEvent cfg env (req_eventId req) W)
         = fst (listUploadsForEvent cfg env (req_eventId req) w)"
    using s t by (cases "select_error env") (simp_all add: listUploadsForEvent_def)
  have "upload_route cfg env req w = (\<lparr>status = 500, body = ErrorBody (error_message e)\<rparr>, W)"
    using r by (simp only: W_def)
  then show ?thesis using c t b' l by simp
qed

theorem commit_failure_compensation_witness:
  "fst (upload_route demo_remote failing_insert (demo_request [photo]) demo_world)
     = \<lparr>status = 500, body = ErrorBody ''insert failed''\<rparr>
   \<and> calls (snd (upload_route demo_remote failing_insert (demo_request [photo]) demo_world))
     = [BucketUpload (storage_key demo_remote ''ab12cd'' photo),
        BucketRemove (storage_key demo_remote ''ab12cd'' photo)]
   \<and> bucket (snd (upload_route demo_remote failing_insert (demo_request [photo]) demo_world)) = []"
proof -
  have e: "req_eventId (demo_request [photo]) = ''ab12cd''" "req_files (demo_request [photo]) = [photo]"
    by (simp_all add: demo_request_def)
  have s: "USING_SUPABASE demo_remote" by (simp add: demo_remote_def)
  have u: "\<forall>k. upload_error failing_insert k = None" "select_error failing_insert = None"
    "insert_error failing_insert = Some (JsError ''insert failed'')"
    "\<forall>k. remove_error failing_insert k = None"
    by (simp_all add: calm_def failing_insert_def)
  have w: "bucket demo_world = []" "calls demo_world = []" by (simp_all add: demo_world_def)
  show ?thesis
    using commit_failure_compensation [of demo_remote "demo_request [photo]" failing_insert demo_world
        demo_event "JsError ''insert failed''"] s valid_photo found_remote [OF u(2)] u(1,3,4)
    by (simp add: e w error_message_def)
qed

text \<open>
  On the local backend the file that the disk engine wrote stays on disk when the
  database file cannot be written, and no removal is called; on the remote backend an
  object whose removal fails stays in the bucket.
\<close>

theorem commit_failure_compensation_counterexample:
  "fst (upload_route demo_local full_disk (demo_request [photo]) demo_world)
     = \<lparr>status = 500, body = ErrorBody ''ENOSPC''\<rparr>
   \<and> calls (snd (upload_route demo_local full_disk (demo_request [photo]) demo_world))
     = [DiskWrite (disk_path demo_local ''ab12cd'' photo)]
   \<and> disk (snd (upload_route demo_local full_disk (demo_request [photo]) demo_world))
     = [disk_path demo_local ''ab12cd'' photo]
   \<and> bucket (snd (upload_route demo_remote stuck_removal (demo_request [photo]) demo_world))
     = [supabase_storagePath ''ab12cd'' (drawn_now photo) (drawn_key photo) (originalname photo)]"
proof -
  have d: "disk_path demo_local ''ab12cd'' photo
     = path_join [path_join [''/srv/app/uploads'', ''ab12cd''],
                  storage_filename (drawn_now photo) (drawn_key photo) (originalname photo)]"
    by (simp add: disk_path_def demo_local_def)
  have m: "mimetype photo = ''image/png''" "part_size photo = 1000" by (simp_all add: photo_def)
  show ?thesis
    unfolding d
    by (simp add: route_defs demo_local_def demo_remote_def calm_def full_disk_def stuck_removal_def
        demo_event_def demo_world_def demo_request_def disk_path_def m)
qed

lemma engine_remove_remote: "USING_SUPABASE cfg \<Longrightarrow> engine_remove cfg env eid files w = w"
  by (cases files) simp_all

lemma engine_remove_local:
  "\<not> USING_SUPABASE cfg \<Longrightarrow>
   engine_remove cfg env eid files w =
     w\<lparr>calls := calls w @ map (\<lambda>f. DiskRemove (disk_path cfg eid f)) files,
       disk := filter (\<lambda>p. \<not> (p \<in> set (map (disk_path cfg eid) files) \<and> disk_remove_error env p = None))
                 (disk w)\<rparr>"
proof (induction files arbitrary: w)
  case Nil
  then show ?case by simp
next
  case (Cons f files)
  let ?p = "disk_path cfg eid f"
  show ?case
  proof (cases "disk_remove_error env ?p")
    case None
    have "filter (\<lambda>p. \<not> (p \<in> set (map (disk_path cfg eid) files) \<and> disk_remove_error env p = None))
            (removeAll ?p (disk w))
        = filter (\<lambda>p. \<not> (p \<in> set (map (disk_path cfg eid) (f # files)) \<and> disk_remove_error env p = None))
            (disk w)"
      using None by (auto simp: removeAll_filter intro: filter_cong)
    with None Cons show ?thesis by (simp add: Let_def)
  next
    case (Some e)
    have "filter (\<lambda>p. \<not> (p \<in> set (map (disk_path cfg eid) files) \<and> disk_remove_error env p = None))
            (disk w)
        = filter (\<lambda>p. \<not> (p \<in> set (map (disk_path cfg eid) (f # files)) \<and> disk_remove_error env p = None))
            (disk w)"
      using Some by (auto intro: filter_cong)
    with Some Cons show ?thesis by (simp add: Let_def)
  qed
qed

lemma engine_remove_keeps:
  "db_file (engine_remove cfg env eid files w) = db_file w
   \<and> events_table (engine_remove cfg env eid files w) = events_table w
   \<and> uploads_table (engine_remove cfg env eid files w) = uploads_table w
   \<and> bucket (engine_remove cfg env eid files w) = bucket w
   \<and> (\<not> USING_SUPABASE cfg \<longrightarrow>
        (\<forall>p \<in> set (disk (engine_remove cfg env eid files w)).
           p \<in> set (disk w)
           \<and> (p \<notin> set (map (disk_path cfg eid) files) \<or> disk_remove_error env p \<noteq> None)))"
  by (cases "USING_SUPABASE cfg") (auto simp: engine_remove_remote engine_remove_local)

lemma engine_store_keeps:
  "engine_store cfg env eid f w = (r, w') \<Longrightarrow>
   db_file w' = db_file w \<and> events_table w' = events_table w \<and> uploads_table w' = uploads_table w
   \<and> bucket w' = bucket w \<and> (USING_SUPABASE cfg \<longrightarrow> w' = w)
   \<and> set (disk w') \<subseteq> insert (disk_path cfg eid f) (set (disk w))
   \<and> (r \<noteq> None \<longrightarrow> set (disk w') \<subseteq> set (disk w) \<union> {p. disk_write_error env p \<noteq> None})"
  by (auto simp: engine_store_def Let_def split: if_splits option.splits)

lemma multer_array_keeps:
  "multer_array cfg env eid files stored w = (err, fs, w') \<Longrightarrow>
   db_file w' = db_file w \<and> events_table w' = events_table w \<and> uploads_table w' = uploads_table w
   \<and> bucket w' = bucket w \<and> (USING_SUPABASE cfg \<longrightarrow> w' = w)"
proof (induction files arbitrary: stored w)
  case Nil
  then show ?case by simp
next
  case (Cons f files)
  obtain r w1 where e: "engine_store cfg env eid f w = (r, w1)" by (cases "engine_store cfg env eid f w")
  note k = engine_store_keeps [OF e]
  note rm = engine_remove_keeps [of cfg env eid] engine_remove_remote [of cfg env eid]
  show ?case
  proof (cases "MAX_FILES_PER_REQUEST cfg \<le> length stored \<or> fileFilter f \<noteq> None \<or> r \<noteq> None
                \<or> MAX_FILE_SIZE_MB cfg * 1024 * 1024 < part_size f")
    case True
    with Cons.prems e k rm show ?thesis
      by (auto split: if_splits option.splits)
  next
    case False
    with Cons.prems e have "multer_array cfg env eid files (stored @ [f]) w1 = (err, fs, w')"
      by auto
    from Cons.IH [OF this] k show ?thesis by auto
  qed
qed

lemma multer_array_rejects:
  "\<exists>f \<in> set files. \<not> valid_type f \<Longrightarrow> fst (multer_array cfg env eid files stored w) \<noteq> None"
proof (induction files arbitrary: stored w)
  case Nil
  then show ?case by simp
next
  case (Cons f files)
  obtain r w1 where e: "engine_store cfg env eid f w = (r, w1)" by (cases "engine_store cfg env eid f w")
  show ?case
  proof (cases "MAX_FILES_PER_REQUEST cfg \<le> length stored \<or> fileFilter f \<noteq> None \<or> r \<noteq> None
                \<or> MAX_FILE_SIZE_MB cfg * 1024 * 1024 < part_size f")
    case True
    with e show ?thesis by (auto split: option.splits)
  next
    case False
    then have "valid_type f" by (simp add: fileFilter_valid)
    with Cons.prems have "\<exists>f \<in> set files. \<not> valid_type f" by auto
    from Cons.IH [OF this, of "stored @ [f]" w1] False e show ?thesis by auto
  qed
qed

text \<open>
  When the middleware ends with an error on the local backend, a file that is on disk
  afterwards was there before and is not one of the stored files, or its removal
  failed, or its own write failed.
\<close>

lemma multer_array_error_disk:
  "multer_array cfg env eid files stored w = (Some err, fs, w') \<Longrightarrow> \<not> USING_SUPABASE cfg \<Longrightarrow>
   fs = [] \<and> (\<forall>p \<in> set (disk w').
                 (p \<in> set (disk w) \<and> p \<notin> set (map (disk_path cfg eid) stored))
                 \<or> disk_remove_error env p \<noteq> None \<or> disk_write_error env p \<noteq> None)"
proof (induction files arbitrary: stored w)
  case Nil
  then show ?case by simp
next
  case (Cons f files)
  obtain r w1 where e: "engine_store cfg env eid f w = (r, w1)" by (cases "engine_store cfg env eid f w")
  note k = engine_store_keeps [OF e]
  show ?case
  proof (cases "MAX_FILES_PER_REQUEST cfg \<le> length stored \<or> fileFilter f \<noteq> None")
    case True
    with Cons.prems have "w' = engine_remove cfg env eid stored w" "fs = []"
      by (auto split: if_splits option.splits)
    then show ?thesis
      using engine_remove_keeps [of cfg env eid stored w] Cons.prems(2) by blast
  next
    case False
    note F = this
    show ?thesis
    proof (cases r)
      case (Some x)
      with F Cons.prems e have w': "w' = engine_remove cfg env eid stored w1" and "fs = []" by auto
      moreover from Some k have "set (disk w1) \<subseteq> set (disk w) \<union> {p. disk_write_error env p \<noteq> None}"
        by simp
      ultimately show ?thesis
        using engine_remove_keeps [of cfg env eid stored w1] Cons.prems(2) by blast
    next
      case None
      show ?thesis
      proof (cases "MAX_FILE_SIZE_MB cfg * 1024 * 1024 < part_size f")
        case True
        with F None Cons.prems e have "w' = engine_remove cfg env eid (stored @ [f]) w1" "fs = []" by auto
        moreover from k have "set (disk w1) \<subseteq> insert (disk_path cfg eid f) (set (disk w))" by simp
        ultimately show ?thesis
          using engine_remove_keeps [of cfg env eid "stored @ [f]" w1] Cons.prems(2) by auto
      next
        case False
        with F None Cons.prems e have "multer_array cfg env eid files (stored @ [f]) w1 = (Some err, fs, w')"
          by auto
        from Cons.IH [OF this Cons.prems(2)] k show ?thesis by auto
      qed
    qed
  qed
qed

text \<open>
  C2, as amended. For an existing event, when some file of the batch has a content type
  that starts with neither \<open>image/\<close> nor \<open>video/\<close>, the route answers 400 and commits no
  upload record; on the remote backend no storage call is made at all; on the local
  backend the files that the disk engine wrote before it reached the offending one are
  removed again, so a file that is on disk afterwards was there before, or its removal
  failed, or its own write failed.
\<close>

theorem invalid_type_rejects_batch:
  assumes ev: "fst (findEventById cfg env (req_eventId req) w) = Inr (Some ev)"
    and bad: "\<exists>f \<in> set (req_files req). \<not> valid_type f"
  shows "status (fst (upload_route cfg env req w)) = 400
     \<and> db_file (snd (upload_route cfg env req w)) = db_file w
     \<and> uploads_table (snd (upload_route cfg env req w)) = uploads_table w
     \<and> bucket (snd (upload_route cfg env req w)) = bucket w
     \<and> (USING_SUPABASE cfg \<longrightarrow> calls (snd (upload_route cfg env req w)) = calls w)
     \<and> (\<not> USING_SUPABASE cfg \<longrightarrow>
          (\<forall>p \<in> set (disk (snd (upload_route cfg env req w))).
             p \<in> set (disk w) \<or> disk_remove_error env p \<noteq> None \<or> disk_write_error env p \<noteq> None))"
proof -
  from findEventById_found [OF ev] have
    f: "findEventById cfg env (req_eventId req) w = (Inr (Some ev), w)" by simp
  obtain err fs w1 where m: "multer_array cfg env (req_eventId req) (req_files req) [] w = (err, fs, w1)"
    by (cases "multer_array cfg env (req_eventId req) (req_files req) [] w")
  from multer_array_rejects [OF bad, of cfg env "req_eventId req" "[]" w] m
  obtain e where e: "err = Some e" by auto
  have r: "upload_route cfg env req w =
     (\<lparr>status = 400, body = ErrorBody (case e of JsError m \<Rightarrow> or_string m ''Dosya yuklenemedi.''
                                       | NonError \<Rightarrow> ''Dosya yuklenemedi.'')\<rparr>, w1)"
    using f m e by (simp add: upload_route_def upload_callback_def)
  have d: "\<forall>p \<in> set (disk w1).
             p \<in> set (disk w) \<or> disk_remove_error env p \<noteq> None \<or> disk_write_error env p \<noteq> None"
    if "\<not> USING_SUPABASE cfg"
    using multer_array_error_disk [OF m [unfolded e] that] by auto
  show ?thesis
    unfolding r using multer_array_keeps [OF m] d by auto
qed

lemma rejected_locally:
  "disk_write_error env (disk_path demo_local ''ab12cd'' photo) = None \<Longrightarrow>
   multer_array demo_local env ''ab12cd'' [photo, document] [] demo_world
     = (fileFilter document, [],
        engine_remove demo_local env ''ab12cd'' [photo]
          (snd (engine_store demo_local env ''ab12cd'' photo demo_world)))"
  by (simp add: fileFilter_def startsWith_def photo_def document_def demo_local_def engine_store_def
      Let_def del: engine_remove.simps)

lemma rejected_route:
  "disk_write_error env (disk_path demo_local ''ab12cd'' photo) = None \<Longrightarrow>
   upload_route demo_local env (demo_request [photo, document]) demo_world
     = (\<lparr>status = 400, body = ErrorBody ''Sadece foto veya video yuklenebilir.''\<rparr>,
        engine_remove demo_local env ''ab12cd'' [photo]
          (snd (engine_store demo_local env ''ab12cd'' photo demo_world)))"
  using found_local [of env] findEventById_found [of demo_local env "''ab12cd''" demo_world demo_event]
    rejected_locally [of env]
  by (simp add: upload_route_def demo_request_def upload_callback_def fileFilter_def startsWith_def
      document_def or_string_def del: engine_remove.simps)

theorem invalid_type_rejects_batch_witness:
  "status (fst (upload_route demo_remote calm (demo_request [photo, document]) demo_world)) = 400
   \<and> snd (upload_route demo_remote calm (demo_request [photo, document]) demo_world) = demo_world
   \<and> status (fst (upload_route demo_local calm (demo_request [photo, document]) demo_world)) = 400
   \<and> disk (snd (upload_route demo_local calm (demo_request [photo, document]) demo_world)) = []
   \<and> disk (snd (upload_route demo_local stuck_unlink (demo_request [photo, document]) demo_world))
       = [disk_path demo_local ''ab12cd'' photo]"
proof -
  have e: "req_eventId (demo_request fs) = ''ab12cd''" "req_files (demo_request fs) = fs" for fs
    by (simp_all add: demo_request_def)
  have b: "\<exists>f \<in> set [photo, document]. \<not> valid_type f"
    by (simp add: valid_type_def document_def startsWith_def)
  have c: "select_error calm = None" by (simp add: calm_def)
  have k: "multer_array demo_remote calm ''ab12cd'' [photo, document] [] demo_world
      = (fileFilter document, [], demo_world)"
    by (simp add: fileFilter_def startsWith_def photo_def document_def demo_remote_def engine_store_def Let_def)
  have r: "snd (upload_route demo_remote calm (demo_request [photo, document]) demo_world) = demo_world"
    using found_remote [OF c] findEventById_found [of demo_remote calm "''ab12cd''" demo_world demo_event] k
    by (simp add: upload_route_def e upload_callback_def fileFilter_def startsWith_def document_def)
  have l: "disk (snd (upload_route demo_local calm (demo_request [photo, document]) demo_world)) = []"
    by (subst rejected_route)
       (simp_all add: calm_def engine_store_def demo_local_def demo_world_def Let_def)
  have s: "disk (snd (upload_route demo_local stuck_unlink (demo_request [photo, document]) demo_world))
       = [disk_path demo_local ''ab12cd'' photo]"
    by (subst rejected_route)
       (simp_all add: calm_def stuck_unlink_def engine_store_def demo_local_def demo_world_def Let_def)
  show ?thesis
    using invalid_type_rejects_batch [of demo_remote calm "demo_request [photo, document]" demo_world demo_event]
      invalid_type_rejects_batch [of demo_local calm "demo_request [photo, document]" demo_world demo_event]
      found_remote [OF c] found_local [of calm] b r l s
    by (simp add: e)
qed

text \<open>
  On the local backend the disk engine has written the first file of the batch by the
  time the second one is refused.
\<close>

theorem invalid_type_rejects_batch_counterexample:
  "status (fst (upload_route demo_local calm (demo_request [photo, document]) demo_world)) = 400
   \<and> calls (snd (upload_route demo_local calm (demo_request [photo, document]) demo_world))
     = [DiskWrite (disk_path demo_local ''ab12cd'' photo),
        DiskRemove (disk_path demo_local ''ab12cd'' photo)]"
proof -
  have c: "disk_write_error calm p = None" "disk_remove_error calm p = None" for p
    by (simp_all add: calm_def)
  have l: "\<not> USING_SUPABASE demo_local" by (simp add: demo_local_def)
  have w: "calls demo_world = []" by (simp add: demo_world_def)
  have "calls (engine_remove demo_local calm ''ab12cd'' [photo]
                 (snd (engine_store demo_local calm ''ab12cd'' photo demo_world)))
      = [DiskWrite (disk_path demo_local ''ab12cd'' photo),
         DiskRemove (disk_path demo_local ''ab12cd'' photo)]"
    by (simp add: engine_store_def Let_def c l w)
  then show ?thesis by (simp add: rejected_route [OF c(1)])
qed

end
